theory Spec2Isabelle
  imports Complex_Main "HOL-Library.AList" "HOL-Library.Sublist" "HOL-Library.Multiset"
begin

section \<open>Data model\<close>

text \<open>
  The program (\<^verbatim>\<open>src/app.py\<close>) works on pandas data frames. A frame is modelled
  column-wise, as pandas stores it: a row count (the length of the index) and an ordered
  list of named columns. A cell is one of the values that occur in the frames of this
  program: a number, the missing number NaN, a text, a timestamp (nanoseconds since the
  epoch), the missing timestamp NaT, or a calendar date (year, month, day).

  Numbers are modelled as finite values with exact arithmetic (\<open>real\<close>); infinities,
  rounding and the 64-bit range of timestamps are not represented.
\<close>

datatype cell =
    Num real
  | NaN
  | Str string
  | Timestamp int
  | NaT
  | DateOf int int int

record frame =
  nrows :: nat
  columns :: "(string \<times> cell list) list"

text \<open>The three \<^verbatim>\<open>RuntimeError\<close>s that \<^verbatim>\<open>load_data\<close> raises itself.\<close>

datatype runtime_msg =
    CannotConstructDatetime
  | AllDatetimeNaT
  | NoNetColumns

datatype error =
    RuntimeError runtime_msg
  | ValueError
  | TypeError
  | KeyError
  | AttributeError

text \<open>
  The text parsers of the library are not part of the program. They are parameters of the
  model: \<open>parse_datetime col c\<close> is the instant that \<^verbatim>\<open>pd.to_datetime\<close> reads from the
  cell \<open>c\<close> of the column \<open>col\<close> (\<open>None\<close> when it cannot be read), \<open>parse_float s\<close> is
  what \<^verbatim>\<open>float(s)\<close> returns on a text (\<open>None\<close> when it raises, \<open>Some None\<close> for a NaN),
  and \<open>format_fixed d x\<close> is the text of \<^verbatim>\<open>format(x, ",.<d>f")\<close>.
\<close>

record library =
  parse_datetime :: "cell list \<Rightarrow> cell \<Rightarrow> int option"
  parse_float :: "string \<Rightarrow> real option option"
  format_fixed :: "nat \<Rightarrow> real \<Rightarrow> string"

definition wf_frame :: "frame \<Rightarrow> bool" where
  "wf_frame df \<longleftrightarrow>
     distinct (map fst (columns df)) \<and>
     list_all (\<lambda>(c, col). length col = nrows df) (columns df)"

section \<open>Errors as values\<close>

definition bindE :: "error + 'a \<Rightarrow> ('a \<Rightarrow> error + 'b) \<Rightarrow> error + 'b" where
  "bindE m f = (case m of Inl e \<Rightarrow> Inl e | Inr x \<Rightarrow> f x)"

fun mapE :: "('a \<Rightarrow> error + 'b) \<Rightarrow> 'a list \<Rightarrow> error + 'b list" where
  "mapE f [] = Inr []"
| "mapE f (x # xs) = bindE (f x) (\<lambda>y. bindE (mapE f xs) (\<lambda>ys. Inr (y # ys)))"

section \<open>Frame operations\<close>

text \<open>\<^verbatim>\<open>c in df.columns\<close> and \<^verbatim>\<open>df[c]\<close>: \<open>get_col df c = None\<close> when there is no such column.\<close>

definition get_col :: "frame \<Rightarrow> string \<Rightarrow> cell list option" where
  "get_col df c = map_of (columns df) c"

text \<open>\<^verbatim>\<open>df[c] = col\<close>: replaces the column in place, or appends a new last column.\<close>

definition set_col :: "frame \<Rightarrow> string \<Rightarrow> cell list \<Rightarrow> frame" where
  "set_col df c col = df\<lparr>columns := AList.update c col (columns df)\<rparr>"

definition is_net :: "string \<Rightarrow> bool" where
  "is_net c \<longleftrightarrow> prefix ''net_'' c"

text \<open>Lines 50-53: drop the columns whose name starts with \<^verbatim>\<open>net_\<close>.\<close>

definition drop_net_cols :: "frame \<Rightarrow> frame" where
  "drop_net_cols df =
     (let old_net_cols = filter is_net (map fst (columns df))
      in if old_net_cols \<noteq> []
         then df\<lparr>columns := filter (\<lambda>(c, col). c \<notin> set old_net_cols) (columns df)\<rparr>
         else df)"

section \<open>Cell and column operations\<close>

fun isna :: "cell \<Rightarrow> bool" where
  "isna NaN = True"
| "isna NaT = True"
| "isna _ = False"

definition fillna :: "cell \<Rightarrow> cell \<Rightarrow> cell" where
  "fillna v c = (if isna c then v else c)"

fun abs_cell :: "cell \<Rightarrow> error + cell" where
  "abs_cell (Num x) = Inr (Num \<bar>x\<bar>)"
| "abs_cell NaN = Inr NaN"
| "abs_cell _ = Inl TypeError"

fun sub_cell :: "cell \<Rightarrow> cell \<Rightarrow> error + cell" where
  "sub_cell (Num x) (Num y) = Inr (Num (x - y))"
| "sub_cell (Num x) NaN = Inr NaN"
| "sub_cell NaN (Num y) = Inr NaN"
| "sub_cell NaN NaN = Inr NaN"
| "sub_cell _ _ = Inl TypeError"

text \<open>A number read with \<^verbatim>\<open>skipna\<close>: NaN counts as zero, anything that is no number raises.\<close>

fun num_skipna :: "cell \<Rightarrow> error + real" where
  "num_skipna (Num x) = Inr x"
| "num_skipna NaN = Inr 0"
| "num_skipna _ = Inl TypeError"

text \<open>\<^verbatim>\<open>Series.sum()\<close>.\<close>

definition series_sum :: "cell list \<Rightarrow> error + real" where
  "series_sum col = bindE (mapE num_skipna col) (\<lambda>vs. Inr (sum_list vs))"

text \<open>\<^verbatim>\<open>df[cols].sum(axis=1)\<close>: one sum per row of the index.\<close>

definition sum_axis1 :: "nat \<Rightarrow> cell list list \<Rightarrow> error + cell list" where
  "sum_axis1 n cols =
     mapE (\<lambda>i. bindE (series_sum (map (\<lambda>col. col ! i) cols)) (\<lambda>s. Inr (Num s))) [0..<n]"

text \<open>\<^verbatim>\<open>pd.to_datetime(col, errors="coerce")\<close>.\<close>

definition to_datetime :: "library \<Rightarrow> cell list \<Rightarrow> cell list" where
  "to_datetime L col =
     map (\<lambda>c. case parse_datetime L col c of Some t \<Rightarrow> Timestamp t | None \<Rightarrow> NaT) col"

section \<open>The hour slot (lines 33-40)\<close>

fun astype_float :: "library \<Rightarrow> cell \<Rightarrow> error + cell" where
  "astype_float L (Num x) = Inr (Num x)"
| "astype_float L NaN = Inr NaN"
| "astype_float L (Str s) =
     (case parse_float L s of
        None \<Rightarrow> Inl ValueError
      | Some None \<Rightarrow> Inr NaN
      | Some (Some x) \<Rightarrow> Inr (Num x))"
| "astype_float L _ = Inl TypeError"

text \<open>The conversion to an integer cuts the fraction off (towards zero).\<close>

definition trunc :: "real \<Rightarrow> int" where
  "trunc x = (if 0 \<le> x then \<lfloor>x\<rfloor> else \<lceil>x\<rceil>)"

fun astype_int :: "cell \<Rightarrow> error + cell" where
  "astype_int (Num x) = Inr (Num (of_int (trunc x)))"
| "astype_int NaN = Inl ValueError"
| "astype_int _ = Inl TypeError"

fun clip :: "real \<Rightarrow> real \<Rightarrow> cell \<Rightarrow> error + cell" where
  "clip lo hi (Num x) = Inr (Num (min hi (max lo x)))"
| "clip lo hi NaN = Inr NaN"
| "clip lo hi _ = Inl TypeError"

definition hour_slot :: "library \<Rightarrow> cell list \<Rightarrow> error + cell list" where
  "hour_slot L col =
     bindE (mapE (astype_float L) col) (\<lambda>fs.
     bindE (mapE astype_int (map (fillna (Num 0)) fs)) (\<lambda>is.
     mapE (clip 0 23) is))"

definition ns_per_hour :: int where
  "ns_per_hour = 3600000000000"

definition ns_per_day :: int where
  "ns_per_day = 24 * ns_per_hour"

text \<open>\<^verbatim>\<open>date + pd.to_timedelta(hour, unit="h")\<close> on one row.\<close>

fun add_hours :: "cell \<Rightarrow> cell \<Rightarrow> error + cell" where
  "add_hours (Timestamp t) (Num h) = Inr (Timestamp (t + \<lfloor>h\<rfloor> * ns_per_hour))"
| "add_hours NaT (Num h) = Inr NaT"
| "add_hours (Timestamp t) NaN = Inr NaT"
| "add_hours NaT NaN = Inr NaT"
| "add_hours _ _ = Inl TypeError"

definition tranche :: string where
  "tranche = ''Tranche horaire du programme d'' @ [CHR 0x27, CHR 0xC3, CHR 0xA9] @ ''change''"

text \<open>Lines 29-45: the column \<^verbatim>\<open>datetime\<close> from one of the two schemas.\<close>

definition resolve_datetime :: "library \<Rightarrow> frame \<Rightarrow> error + frame" where
  "resolve_datetime L df =
     (case get_col df ''datetime'' of
        Some dt \<Rightarrow> Inr (set_col df ''datetime'' (to_datetime L dt))
      | None \<Rightarrow>
         (case (get_col df ''Date'', get_col df tranche) of
            (Some d, Some slot) \<Rightarrow>
              (let dates = to_datetime L d;
                   df1 = set_col df ''Date'' dates
               in bindE (hour_slot L slot) (\<lambda>hours.
                  let df2 = set_col df1 ''hour'' hours
                  in bindE (mapE (\<lambda>(a, h). add_hours a h) (zip dates hours)) (\<lambda>dt.
                     Inr (set_col df2 ''datetime'' dt))))
          | _ \<Rightarrow> Inl (RuntimeError CannotConstructDatetime)))"

section \<open>Partner net flows (lines 55-83)\<close>

definition partner_configs :: "(string \<times> string \<times> string) list" where
  "partner_configs =
     [(''GBR'', ''FR vers GB (MWh)'', ''GB vers FR (MWh)''),
      (''CHE'', ''FR vers CH (MWh)'', ''CH vers FR (MWh)''),
      (''ITA'', ''FR vers IT (MWh)'', ''IT vers FR (MWh)''),
      (''ESP'', ''FR vers ES (MWh)'', ''ES vers FR (MWh)''),
      (''CWE/Core'', ''FR->CWE/Core'', ''CWE/Core->FR'')]"

text \<open>Line 71: \<^verbatim>\<open>f"net_{code}"\<close>.\<close>

definition net_name :: "string \<Rightarrow> string" where
  "net_name code = ''net_'' @ code"

text \<open>Lines 67-72: \<^verbatim>\<open>df[exp].fillna(0.0).abs() - df[imp].fillna(0.0).abs()\<close>.\<close>

definition series_net :: "cell list \<Rightarrow> cell list \<Rightarrow> error + cell list" where
  "series_net exp_col imp_col =
     bindE (mapE (\<lambda>c. abs_cell (fillna (Num 0) c)) exp_col) (\<lambda>export_mwh.
     bindE (mapE (\<lambda>c. abs_cell (fillna (Num 0) c)) imp_col) (\<lambda>import_mwh.
     mapE (\<lambda>(e, i). sub_cell e i) (zip export_mwh import_mwh)))"

fun net_flows :: "(string \<times> string \<times> string) list \<Rightarrow> frame \<Rightarrow> error + frame" where
  "net_flows [] df = Inr df"
| "net_flows ((code, exp_col, imp_col) # ps) df =
     (case (get_col df exp_col, get_col df imp_col) of
        (Some e, Some i) \<Rightarrow>
          bindE (series_net e i) (\<lambda>net. net_flows ps (set_col df (net_name code) net))
      | _ \<Rightarrow> net_flows ps df)"

section \<open>Calendar fields of a timestamp\<close>

text \<open>
  The proleptic Gregorian calendar on a count of days since 1970-01-01, as the library
  computes \<^verbatim>\<open>.dt.year\<close>, \<^verbatim>\<open>.dt.day\<close> and the month of a period.
\<close>

definition civil_from_days :: "int \<Rightarrow> int \<times> int \<times> int" where
  "civil_from_days z0 =
     (let z = z0 + 719468;
          era = z div 146097;
          doe = z mod 146097;
          yoe = (doe - doe div 1460 + doe div 36524 - doe div 146096) div 365;
          doy = doe - (365 * yoe + yoe div 4 - yoe div 100);
          mp = (5 * doy + 2) div 153;
          d = doy - (153 * mp + 2) div 5 + 1;
          m = (if mp < 10 then mp + 3 else mp - 9);
          y = yoe + era * 400 + (if m \<le> 2 then 1 else 0)
      in (y, m, d))"

definition days_from_civil :: "int \<Rightarrow> int \<Rightarrow> int \<Rightarrow> int" where
  "days_from_civil y0 m d =
     (let y = (if m \<le> 2 then y0 - 1 else y0);
          era = y div 400;
          yoe = y mod 400;
          doy = (153 * (if 2 < m then m - 3 else m + 9) + 2) div 5 + d - 1;
          doe = yoe * 365 + yoe div 4 - yoe div 100 + doy
      in era * 146097 + doe - 719468)"

definition year_of :: "int \<Rightarrow> int" where
  "year_of t = (case civil_from_days (t div ns_per_day) of (y, m, d) \<Rightarrow> y)"

definition month_of :: "int \<Rightarrow> int" where
  "month_of t = (case civil_from_days (t div ns_per_day) of (y, m, d) \<Rightarrow> m)"

definition day_of :: "int \<Rightarrow> int" where
  "day_of t = (case civil_from_days (t div ns_per_day) of (y, m, d) \<Rightarrow> d)"

definition hour_of :: "int \<Rightarrow> int" where
  "hour_of t = (t mod ns_per_day) div ns_per_hour"

text \<open>A number in decimal, zero-padded to a fixed width.\<close>

fun digits :: "nat \<Rightarrow> nat \<Rightarrow> string" where
  "digits 0 n = []"
| "digits (Suc w) n = digits w (n div 10) @ [''0123456789'' ! (n mod 10)]"

fun dt_date :: "cell \<Rightarrow> error + cell" where
  "dt_date (Timestamp t) = Inr (DateOf (year_of t) (month_of t) (day_of t))"
| "dt_date NaT = Inr NaT"
| "dt_date _ = Inl AttributeError"

fun dt_year :: "cell \<Rightarrow> error + cell" where
  "dt_year (Timestamp t) = Inr (Num (of_int (year_of t)))"
| "dt_year NaT = Inr NaN"
| "dt_year _ = Inl AttributeError"

text \<open>\<^verbatim>\<open>.dt.to_period("M").astype(str)\<close>: the label \<^verbatim>\<open>YYYY-MM\<close>, and the text \<^verbatim>\<open>NaT\<close> for NaT.\<close>

fun dt_month :: "cell \<Rightarrow> error + cell" where
  "dt_month (Timestamp t) =
     Inr (Str (digits 4 (nat (year_of t)) @ ''-'' @ digits 2 (nat (month_of t))))"
| "dt_month NaT = Inr (Str ''NaT'')"
| "dt_month _ = Inl AttributeError"

fun dt_day :: "cell \<Rightarrow> error + cell" where
  "dt_day (Timestamp t) = Inr (Num (of_int (day_of t)))"
| "dt_day NaT = Inr NaN"
| "dt_day _ = Inl AttributeError"

fun dt_hour :: "cell \<Rightarrow> error + cell" where
  "dt_hour (Timestamp t) = Inr (Num (of_int (hour_of t)))"
| "dt_hour NaT = Inr NaN"
| "dt_hour _ = Inl AttributeError"

text \<open>\<^verbatim>\<open>df[name] = df["datetime"].dt.<field>\<close>.\<close>

definition assign_dt :: "string \<Rightarrow> (cell \<Rightarrow> error + cell) \<Rightarrow> frame \<Rightarrow> error + frame" where
  "assign_dt name field df =
     (case get_col df ''datetime'' of
        None \<Rightarrow> Inl KeyError
      | Some dt \<Rightarrow> bindE (mapE field dt) (\<lambda>col. Inr (set_col df name col)))"

section \<open>\<^verbatim>\<open>load_data\<close> (lines 12-92)\<close>

text \<open>
  Lines 47-92, on the frame whose column \<^verbatim>\<open>datetime\<close> has been resolved: the check that
  some timestamp is present, the net columns, their total and the calendar fields.
\<close>

definition reconstruct :: "frame \<Rightarrow> error + frame" where
  "reconstruct df0 =
     (case get_col df0 ''datetime'' of
        None \<Rightarrow> Inl KeyError
      | Some dt \<Rightarrow>
          if list_all isna dt then Inl (RuntimeError AllDatetimeNaT)
          else
            bindE (net_flows partner_configs (drop_net_cols df0)) (\<lambda>df.
            let net_cols = filter (\<lambda>(c, col). is_net c) (columns df)
            in if net_cols = [] then Inl (RuntimeError NoNetColumns)
               else
                 bindE (sum_axis1 (nrows df) (map snd net_cols)) (\<lambda>net_total.
                 bindE (assign_dt ''date'' dt_date (set_col df ''net_total'' net_total)) (\<lambda>df.
                 bindE (assign_dt ''year'' dt_year df) (\<lambda>df.
                 bindE (assign_dt ''month'' dt_month df) (\<lambda>df.
                 bindE (assign_dt ''day'' dt_day df) (\<lambda>df.
                 assign_dt ''hour'' dt_hour df)))))))"

text \<open>
  The argument is the frame that \<^verbatim>\<open>pd.read_csv\<close> returns (line 26); reading the file is
  outside the model.
\<close>

definition load_data :: "library \<Rightarrow> frame \<Rightarrow> error + frame" where
  "load_data L raw = bindE (resolve_datetime L raw) reconstruct"

section \<open>\<^verbatim>\<open>aggregate\<close> (lines 94-112)\<close>

text \<open>The four frequencies the program passes: \<^verbatim>\<open>"H"\<close>, \<^verbatim>\<open>"D"\<close>, \<^verbatim>\<open>"W"\<close>, \<^verbatim>\<open>"M"\<close>.\<close>

datatype granularity = Hourly | Daily | Weekly | Monthly

text \<open>
  The number of the bucket of an instant, and the label of a bucket: the start of the hour
  or day, the Sunday that closes the week, the last day of the month.
\<close>

fun bucket_index :: "granularity \<Rightarrow> int \<Rightarrow> int" where
  "bucket_index Hourly t = t div ns_per_hour"
| "bucket_index Daily t = t div ns_per_day"
| "bucket_index Weekly t = (t div ns_per_day + 10) div 7"
| "bucket_index Monthly t = year_of t * 12 + (month_of t - 1)"

fun bucket_label :: "granularity \<Rightarrow> int \<Rightarrow> int" where
  "bucket_label Hourly k = k * ns_per_hour"
| "bucket_label Daily k = k * ns_per_day"
| "bucket_label Weekly k = (k * 7 - 4) * ns_per_day"
| "bucket_label Monthly k =
     (days_from_civil ((k + 1) div 12) ((k + 1) mod 12 + 1) 1 - 1) * ns_per_day"

definition aggregated_prefixes :: "string list" where
  "aggregated_prefixes =
     [''FR vers'', ''GB vers'', ''CH vers'', ''IT vers'', ''ES vers'',
      ''Export France'', ''Import France'', ''net_'', ''FR->CWE'', ''CWE/Core->FR'']"

definition is_flow_col :: "string \<Rightarrow> bool" where
  "is_flow_col c \<longleftrightarrow> list_ex (\<lambda>p. prefix p c) aggregated_prefixes"

text \<open>The index after \<^verbatim>\<open>set_index("datetime")\<close>: resampling needs timestamps.\<close>

fun index_stamp :: "cell \<Rightarrow> error + int option" where
  "index_stamp (Timestamp t) = Inr (Some t)"
| "index_stamp NaT = Inr None"
| "index_stamp _ = Inl TypeError"

text \<open>
  The sum of one column in each bucket of \<open>ks\<close>, missing values skipped. A row whose
  index is NaT has no bucket: \<^verbatim>\<open>resample\<close> leaves it out. The model covers columns of
  numbers; on a column that holds a text it raises.
\<close>

definition resample_sum :: "int option list \<Rightarrow> int list \<Rightarrow> cell list \<Rightarrow> error + cell list" where
  "resample_sum keys ks col =
     bindE (mapE num_skipna col) (\<lambda>vs.
     Inr (map (\<lambda>k. Num (sum_list (map snd (filter (\<lambda>(k', v). k' = Some k) (zip keys vs))))) ks))"

text \<open>
  The buckets of a resampled index: every bucket from the first to the last one that holds
  a row, the empty ones between them included (their sums are zero).
\<close>

definition buckets :: "int option list \<Rightarrow> int list" where
  "buckets keys =
     (let present = List.map_filter id keys
      in if present = [] then [] else [Min (set present)..Max (set present)])"

text \<open>Lines 106-110: the calendar fields of the buckets, from their labels.\<close>

definition bucket_calendar :: "frame \<Rightarrow> error + frame" where
  "bucket_calendar agg =
     bindE (assign_dt ''date'' dt_date agg) (\<lambda>agg.
     bindE (assign_dt ''month'' dt_month agg) (\<lambda>agg.
     assign_dt ''year'' dt_year agg))"

text \<open>
  Lines 97-104: the columns of the flow and net families are summed per bucket, and the
  bucket labels become the column \<^verbatim>\<open>datetime\<close> again. With no column to sum, \<^verbatim>\<open>agg\<close> has
  nothing to put together and raises.
\<close>

definition aggregate :: "frame \<Rightarrow> granularity \<Rightarrow> error + frame" where
  "aggregate df freq =
     (case get_col df ''datetime'' of
        None \<Rightarrow> Inl KeyError
      | Some idx \<Rightarrow>
          bindE (mapE index_stamp idx) (\<lambda>stamps.
          let keys = map (map_option (bucket_index freq)) stamps;
              ks = buckets keys;
              selected = filter (\<lambda>(c, col). is_flow_col c) (columns df)
          in if selected = [] then Inl ValueError
             else
               bindE (mapE (\<lambda>(c, col). bindE (resample_sum keys ks col) (\<lambda>s. Inr (c, s)))
                        selected) (\<lambda>summed.
               bucket_calendar
                 \<lparr>nrows = length ks,
                  columns = (''datetime'', map (\<lambda>k. Timestamp (bucket_label freq k)) ks)
                            # summed\<rparr>)))"

section \<open>\<^verbatim>\<open>format_mwh\<close> (lines 114-127)\<close>

definition placeholder :: string where
  "placeholder = [CHR 0xE2, CHR 0x80, CHR 0x94]"

text \<open>\<^verbatim>\<open>.replace(",", " ")\<close>.\<close>

definition replace_comma :: "string \<Rightarrow> string" where
  "replace_comma s = map (\<lambda>c. if c = CHR '','' then CHR '' '' else c) s"

fun format_mwh :: "library \<Rightarrow> cell \<Rightarrow> error + string" where
  "format_mwh L (Num x) =
     (if \<bar>x\<bar> \<ge> 10 ^ 6 then Inr (replace_comma (format_fixed L 1 (x / 10 ^ 6) @ '' TWh''))
      else if \<bar>x\<bar> \<ge> 10 ^ 3 then Inr (replace_comma (format_fixed L 1 (x / 10 ^ 3) @ '' GWh''))
      else Inr (replace_comma (format_fixed L 0 x @ '' MWh'')))"
| "format_mwh L NaN = Inr placeholder"
| "format_mwh L NaT = Inr placeholder"
| "format_mwh L _ = Inl TypeError"

section \<open>Notions used in the statements\<close>

text \<open>A cell of a flow column with a missing value read as zero.\<close>

definition flow_value :: "cell \<Rightarrow> real" where
  "flow_value c = (case c of Num x \<Rightarrow> x | _ \<Rightarrow> 0)"

definition is_numeric :: "cell \<Rightarrow> bool" where
  "is_numeric c \<longleftrightarrow> (case c of Num x \<Rightarrow> True | NaN \<Rightarrow> True | _ \<Rightarrow> False)"

text \<open>The cells of a resolved \<^verbatim>\<open>datetime\<close> column.\<close>

definition is_stamp :: "cell \<Rightarrow> bool" where
  "is_stamp c \<longleftrightarrow> (case c of Timestamp t \<Rightarrow> True | NaT \<Rightarrow> True | _ \<Rightarrow> False)"

text \<open>No configured raw column has a name that starts with \<^verbatim>\<open>net_\<close>.\<close>

definition raw_named :: "(string \<times> string \<times> string) list \<Rightarrow> bool" where
  "raw_named ps \<longleftrightarrow> (\<forall>(code, e, i)\<in>set ps. \<not> is_net e \<and> \<not> is_net i)"

text \<open>The names of the partners that have both raw columns in a frame.\<close>

definition produced :: "(string \<times> string \<times> string) list \<Rightarrow> frame \<Rightarrow> string set" where
  "produced ps df =
     {net_name code | code e i. (code, e, i) \<in> set ps \<and> get_col df e \<noteq> None \<and> get_col df i \<noteq> None}"

text \<open>Every cell of every net column is a number.\<close>

definition net_cols_num :: "frame \<Rightarrow> bool" where
  "net_cols_num df \<longleftrightarrow> (\<forall>(c, col)\<in>set (columns df). is_net c \<longrightarrow> (\<forall>x\<in>set col. \<exists>v. x = Num v))"

text \<open>The raw table with every column removed whose name begins with \<^verbatim>\<open>net_\<close>.\<close>

definition strip_net :: "frame \<Rightarrow> frame" where
  "strip_net df = df\<lparr>columns := filter (\<lambda>(c, col). \<not> prefix ''net_'' c) (columns df)\<rparr>"

text \<open>
  The number that an hour-slot cell is converted to, a missing value counting as zero;
  \<open>None\<close> when the conversion raises. The hour is that number without its fraction, moved
  into the range from 0 to 23.
\<close>

definition slot_number :: "library \<Rightarrow> cell \<Rightarrow> real option" where
  "slot_number L c =
     (case c of
        Num x \<Rightarrow> Some x
      | NaN \<Rightarrow> Some 0
      | Str s \<Rightarrow> (case parse_float L s of None \<Rightarrow> None | Some None \<Rightarrow> Some 0 | Some (Some x) \<Rightarrow> Some x)
      | _ \<Rightarrow> None)"

definition slot_hour :: "library \<Rightarrow> cell \<Rightarrow> int option" where
  "slot_hour L c = map_option (\<lambda>x. min 23 (max 0 (trunc x))) (slot_number L c)"

text \<open>Lines 34-38 on one cell.\<close>

definition hour_cell :: "library \<Rightarrow> cell \<Rightarrow> error + cell" where
  "hour_cell L c =
     bindE (astype_float L c) (\<lambda>f. bindE (astype_int (fillna (Num 0) f)) (clip 0 23))"

text \<open>The columns of the canonical record: the timestamp, its calendar fields, the net flows.\<close>

definition canonical_col :: "string \<Rightarrow> bool" where
  "canonical_col c \<longleftrightarrow>
     c \<in> {''datetime'', ''date'', ''year'', ''month'', ''day'', ''hour''} \<or> is_net c"

text \<open>The instant of an index cell, the sum of the values of one bucket, and a table with
  its rows taken in another order.\<close>

definition stamp_of :: "cell \<Rightarrow> int option" where
  "stamp_of c = (case c of Timestamp t \<Rightarrow> Some t | _ \<Rightarrow> None)"

definition bucket_sum :: "int option list \<Rightarrow> real list \<Rightarrow> int \<Rightarrow> real" where
  "bucket_sum keys vs k = sum_list (map snd (filter (\<lambda>(k', v). k' = Some k) (zip keys vs)))"

definition take_rows :: "nat list \<Rightarrow> frame \<Rightarrow> frame" where
  "take_rows p df =
     \<lparr>nrows = length p, columns = map (\<lambda>(c, col). (c, map (\<lambda>i. col ! i) p)) (columns df)\<rparr>"

text \<open>The bucket keys of an index, and the summed columns of the buckets \<open>ks\<close>.\<close>

definition bucket_keys :: "granularity \<Rightarrow> cell list \<Rightarrow> int option list" where
  "bucket_keys freq idx = map (\<lambda>c. map_option (bucket_index freq) (stamp_of c)) idx"

definition summed_cols ::
  "int option list \<Rightarrow> int list \<Rightarrow> (string \<times> cell list) list \<Rightarrow> (string \<times> cell list) list" where
  "summed_cols keys ks selected =
     map (\<lambda>(c, col). (c, map (\<lambda>k. Num (bucket_sum keys (map flow_value col) k)) ks)) selected"

section \<open>Example tables\<close>

text \<open>
  A library whose timestamp parser reads a number as nanoseconds since the epoch and
  nothing else, and whose number parser reads the text \<^verbatim>\<open>7\<close> only.
\<close>

definition lib0 :: library where
  "lib0 = \<lparr>parse_datetime = (\<lambda>col c. case c of Num x \<Rightarrow> Some \<lfloor>x\<rfloor> | _ \<Rightarrow> None),
           parse_float = (\<lambda>s. if s = ''7'' then Some (Some 7) else None),
           format_fixed = (\<lambda>d x. [])\<rparr>"

text \<open>
  Two rows for the partner GBR: an import with the wrong sign, a missing export, a
  timestamp that cannot be read, and a net column left by an earlier derivation.
\<close>

definition raw_gbr :: frame where
  "raw_gbr = \<lparr>nrows = 2, columns =
     [(''datetime'', [Num 0, Str ''n/a'']),
      (''FR vers GB (MWh)'', [Num 100, NaN]),
      (''GB vers FR (MWh)'', [Num (- 40), Num (- 3)]),
      (''net_GBR'', [Num 140, Num 3])]\<rparr>"

definition res_gbr :: frame where
  "res_gbr = \<lparr>nrows = 2, columns =
     [(''datetime'', [Timestamp 0, NaT]),
      (''FR vers GB (MWh)'', [Num 100, NaN]),
      (''GB vers FR (MWh)'', [Num (- 40), Num (- 3)]),
      (''net_GBR'', [Num 140, Num 3])]\<rparr>"

definition out_gbr :: frame where
  "out_gbr = \<lparr>nrows = 2, columns =
     [(''datetime'', [Timestamp 0, NaT]),
      (''FR vers GB (MWh)'', [Num 100, NaN]),
      (''GB vers FR (MWh)'', [Num (- 40), Num (- 3)]),
      (''net_GBR'', [Num 60, Num (- 3)]),
      (''net_total'', [Num 60, Num (- 3)]),
      (''date'', [DateOf 1970 1 1, NaT]),
      (''year'', [Num 1970, NaN]),
      (''month'', [Str ''1970-01'', Str ''NaT'']),
      (''day'', [Num 1, NaN]),
      (''hour'', [Num 0, NaN])]\<rparr>"

text \<open>A table with a timestamp and the export column of one partner only.\<close>

definition raw_lone :: frame where
  "raw_lone = \<lparr>nrows = 1, columns =
     [(''datetime'', [Num 0]), (''FR vers GB (MWh)'', [Num 5])]\<rparr>"

definition res_lone :: frame where
  "res_lone = \<lparr>nrows = 1, columns =
     [(''datetime'', [Timestamp 0]), (''FR vers GB (MWh)'', [Num 5])]\<rparr>"

text \<open>A table with both columns of a partner and no timestamp that can be read.\<close>

definition raw_unread :: frame where
  "raw_unread = \<lparr>nrows = 2, columns =
     [(''datetime'', [Str ''n/a'', NaN]),
      (''FR vers GB (MWh)'', [Num 1, Num 2]),
      (''GB vers FR (MWh)'', [Num 3, Num 4])]\<rparr>"

definition res_unread :: frame where
  "res_unread = \<lparr>nrows = 2, columns =
     [(''datetime'', [NaT, NaT]),
      (''FR vers GB (MWh)'', [Num 1, Num 2]),
      (''GB vers FR (MWh)'', [Num 3, Num 4])]\<rparr>"

text \<open>A table in the schema with a date and an hour slot, and one whose slot is no number.\<close>

definition raw_slots :: frame where
  "raw_slots = \<lparr>nrows = 3, columns =
     [(''Date'', [Num 0, Num 0, Str ''n/a'']),
      (tranche, [NaN, Str ''7'', Num 30]),
      (''FR vers GB (MWh)'', [Num 1, Num 2, Num 3]),
      (''GB vers FR (MWh)'', [Num 3, Num 2, Num 1])]\<rparr>"

definition raw_slot_text :: frame where
  "raw_slot_text = \<lparr>nrows = 1, columns =
     [(''Date'', [Num 0]),
      (tranche, [Str ''abc'']),
      (''FR vers GB (MWh)'', [Num 1]),
      (''GB vers FR (MWh)'', [Num 3])]\<rparr>"

text \<open>The same instant and flows in the combined schema and in the date and hour-slot schema.\<close>

definition raw_comb :: frame where
  "raw_comb = \<lparr>nrows = 1, columns =
     [(''datetime'', [Num 18000000000000]),
      (''FR vers GB (MWh)'', [Num 100]),
      (''GB vers FR (MWh)'', [Num (- 40)])]\<rparr>"

definition res_comb :: frame where
  "res_comb = \<lparr>nrows = 1, columns =
     [(''datetime'', [Timestamp 18000000000000]),
      (''FR vers GB (MWh)'', [Num 100]),
      (''GB vers FR (MWh)'', [Num (- 40)])]\<rparr>"

definition out_comb :: frame where
  "out_comb = \<lparr>nrows = 1, columns =
     [(''datetime'', [Timestamp 18000000000000]),
      (''FR vers GB (MWh)'', [Num 100]),
      (''GB vers FR (MWh)'', [Num (- 40)]),
      (''net_GBR'', [Num 60]),
      (''net_total'', [Num 60]),
      (''date'', [DateOf 1970 1 1]),
      (''year'', [Num 1970]),
      (''month'', [Str ''1970-01'']),
      (''day'', [Num 1]),
      (''hour'', [Num 5])]\<rparr>"

definition raw_slot :: frame where
  "raw_slot = \<lparr>nrows = 1, columns =
     [(''Date'', [Num 0]),
      (tranche, [Num 5]),
      (''FR vers GB (MWh)'', [Num 100]),
      (''GB vers FR (MWh)'', [Num (- 40)])]\<rparr>"

definition res_slot :: frame where
  "res_slot = \<lparr>nrows = 1, columns =
     [(''Date'', [Timestamp 0]),
      (tranche, [Num 5]),
      (''FR vers GB (MWh)'', [Num 100]),
      (''GB vers FR (MWh)'', [Num (- 40)]),
      (''hour'', [Num 5]),
      (''datetime'', [Timestamp 18000000000000])]\<rparr>"

definition out_slot :: frame where
  "out_slot = \<lparr>nrows = 1, columns =
     [(''Date'', [Timestamp 0]),
      (tranche, [Num 5]),
      (''FR vers GB (MWh)'', [Num 100]),
      (''GB vers FR (MWh)'', [Num (- 40)]),
      (''hour'', [Num 5]),
      (''datetime'', [Timestamp 18000000000000]),
      (''net_GBR'', [Num 60]),
      (''net_total'', [Num 60]),
      (''date'', [DateOf 1970 1 1]),
      (''year'', [Num 1970]),
      (''month'', [Str ''1970-01'']),
      (''day'', [Num 1])]\<rparr>"

section \<open>Basic facts\<close>

lemma bindE_Inl [simp]: "bindE (Inl e) f = Inl e"
  by (simp add: bindE_def)

lemma bindE_Inr [simp]: "bindE (Inr x) f = f x"
  by (simp add: bindE_def)

lemma bindE_eq_Inr: "bindE m f = Inr y \<longleftrightarrow> (\<exists>x. m = Inr x \<and> f x = Inr y)"
  by (cases m) simp_all

lemma bindE_eq_Inl: "bindE m f = Inl e \<longleftrightarrow> m = Inl e \<or> (\<exists>x. m = Inr x \<and> f x = Inl e)"
  by (cases m) simp_all

lemma mapE_Inr_iff: "mapE f xs = Inr ys \<longleftrightarrow> list_all2 (\<lambda>x y. f x = Inr y) xs ys"
proof (induction xs arbitrary: ys)
  case Nil
  show ?case by auto
next
  case (Cons x xs)
  show ?case
    by (cases ys) (auto simp: bindE_eq_Inr Cons.IH)
qed

lemma mapE_length: "mapE f xs = Inr ys \<Longrightarrow> length ys = length xs"
  by (simp add: mapE_Inr_iff list_all2_lengthD)

lemma mapE_nth: "mapE f xs = Inr ys \<Longrightarrow> i < length xs \<Longrightarrow> f (xs ! i) = Inr (ys ! i)"
  by (auto simp: mapE_Inr_iff dest: list_all2_nthD)

lemma mapE_Inl: "mapE f xs = Inl e \<Longrightarrow> \<exists>x\<in>set xs. f x = Inl e"
  by (induction xs) (auto simp: bindE_eq_Inl)

lemma mapE_total: "(\<And>x. x \<in> set xs \<Longrightarrow> \<exists>y. f x = Inr y) \<Longrightarrow> \<exists>ys. mapE f xs = Inr ys"
proof (cases "mapE f xs")
  case (Inl e)
  assume "\<And>x. x \<in> set xs \<Longrightarrow> \<exists>y. f x = Inr y"
  with mapE_Inl [OF Inl] show ?thesis by fastforce
next
  case (Inr ys)
  then show ?thesis by blast
qed

lemma mapE_pure: "mapE (\<lambda>x. Inr (g x)) xs = Inr (map g xs)"
  by (induction xs) simp_all

lemma mapE_cong: "(\<And>x. x \<in> set xs \<Longrightarrow> f x = g x) \<Longrightarrow> mapE f xs = mapE g xs"
  by (induction xs) simp_all

subsection \<open>Columns of a frame\<close>

lemma get_col_set_col:
  "get_col (set_col df c v) c' = (if c' = c then Some v else get_col df c')"
  by (simp add: get_col_def set_col_def update_conv')

lemma nrows_set_col [simp]: "nrows (set_col df c v) = nrows df"
  by (simp add: set_col_def)

lemma wf_set_col: "wf_frame df \<Longrightarrow> length v = nrows df \<Longrightarrow> wf_frame (set_col df c v)"
proof -
  have "list_all (\<lambda>(k, col). length col = n) al \<Longrightarrow> length v = n \<Longrightarrow>
        list_all (\<lambda>(k, col). length col = n) (AList.update c v al)" for n al
    by (induction al) auto
  then show "wf_frame df \<Longrightarrow> length v = nrows df \<Longrightarrow> wf_frame (set_col df c v)"
    by (simp add: wf_frame_def set_col_def distinct_update)
qed

lemma wf_get_col: "wf_frame df \<Longrightarrow> get_col df c = Some col \<Longrightarrow> length col = nrows df"
  by (auto simp: wf_frame_def get_col_def list_all_iff dest: map_of_SomeD)

lemma net_cols_update_net:
  "is_net k \<Longrightarrow>
     filter (\<lambda>p. is_net (fst p)) (AList.update k v al) = AList.update k v (filter (\<lambda>p. is_net (fst p)) al)"
  by (induction al) auto

lemma net_cols_update_other:
  "\<not> is_net k \<Longrightarrow>
     filter (\<lambda>p. is_net (fst p)) (AList.update k v al) = filter (\<lambda>p. is_net (fst p)) al"
  by (induction al) auto

lemma other_cols_update_net:
  "is_net k \<Longrightarrow>
     filter (\<lambda>p. \<not> is_net (fst p)) (AList.update k v al) = filter (\<lambda>p. \<not> is_net (fst p)) al"
  by (induction al) auto

lemma other_cols_update_other:
  "\<not> is_net k \<Longrightarrow>
     filter (\<lambda>p. \<not> is_net (fst p)) (AList.update k v al)
       = AList.update k v (filter (\<lambda>p. \<not> is_net (fst p)) al)"
  by (induction al) auto

lemma drop_net_cols_eq:
  "drop_net_cols df = df\<lparr>columns := filter (\<lambda>p. \<not> is_net (fst p)) (columns df)\<rparr>"
proof (cases "filter is_net (map fst (columns df)) = []")
  case True
  then have "\<forall>p\<in>set (columns df). \<not> is_net (fst p)"
    by (auto simp: filter_empty_conv)
  then have "filter (\<lambda>p. \<not> is_net (fst p)) (columns df) = columns df"
    by (simp add: filter_id_conv)
  with True show ?thesis by (simp add: drop_net_cols_def)
next
  case False
  have "filter (\<lambda>(c, col). c \<notin> set (filter is_net (map fst (columns df)))) (columns df)
        = filter (\<lambda>p. \<not> is_net (fst p)) (columns df)"
    by (rule filter_cong) force+
  with False show ?thesis by (simp add: drop_net_cols_def Let_def)
qed

lemma get_col_drop_net:
  "get_col (drop_net_cols df) c = (if is_net c then None else get_col df c)"
  by (simp add: drop_net_cols_eq get_col_def map_of_filter [where P = "\<lambda>c. \<not> is_net c"] restrict_map_def)

lemma nrows_drop_net [simp]: "nrows (drop_net_cols df) = nrows df"
  by (simp add: drop_net_cols_eq)

lemma wf_drop_net: "wf_frame df \<Longrightarrow> wf_frame (drop_net_cols df)"
  by (auto simp: drop_net_cols_eq wf_frame_def distinct_map_filter list_all_iff)

lemma drop_net_set_col:
  "\<not> is_net c \<Longrightarrow> drop_net_cols (set_col df c v) = set_col (drop_net_cols df) c v"
  by (simp add: drop_net_cols_eq set_col_def other_cols_update_other)

lemma drop_net_idem [simp]: "drop_net_cols (drop_net_cols df) = drop_net_cols df"
  by (simp add: drop_net_cols_eq)

lemma net_cols_drop_net [simp]:
  "filter (\<lambda>p. is_net (fst p)) (columns (drop_net_cols df)) = []"
  by (simp add: drop_net_cols_eq)

subsection \<open>The net column of one partner\<close>

lemma is_net_name [simp]: "is_net (net_name code)"
  by (simp add: is_net_def net_name_def)

lemma net_name_inj [simp]: "net_name a = net_name b \<longleftrightarrow> a = b"
  by (simp add: net_name_def)

lemma series_net_length:
  "series_net e i = Inr net \<Longrightarrow> length net = min (length e) (length i)"
  by (auto simp: series_net_def bindE_eq_Inr dest!: mapE_length)

lemma abs_fillna_Inr:
  "abs_cell (fillna (Num 0) c) = Inr y \<Longrightarrow> (is_numeric c \<or> c = NaT) \<and> y = Num \<bar>flow_value c\<bar>"
  by (cases c) (auto simp: fillna_def flow_value_def is_numeric_def)

lemma series_net_nth:
  assumes "series_net e i = Inr net" and "r < length e" and "r < length i"
  shows "net ! r = Num (\<bar>flow_value (e ! r)\<bar> - \<bar>flow_value (i ! r)\<bar>)"
    and "is_numeric (e ! r) \<or> e ! r = NaT" and "is_numeric (i ! r) \<or> i ! r = NaT"
proof -
  from assms(1) obtain ex im where
    ex: "mapE (\<lambda>c. abs_cell (fillna (Num 0) c)) e = Inr ex" and
    im: "mapE (\<lambda>c. abs_cell (fillna (Num 0) c)) i = Inr im" and
    sub: "mapE (\<lambda>(a, b). sub_cell a b) (zip ex im) = Inr net"
    by (auto simp: series_net_def bindE_eq_Inr)
  have le: "length ex = length e" and li: "length im = length i"
    using ex im by (auto dest: mapE_length)
  have a: "abs_cell (fillna (Num 0) (e ! r)) = Inr (ex ! r)"
    using mapE_nth [OF ex assms(2)] .
  have b: "abs_cell (fillna (Num 0) (i ! r)) = Inr (im ! r)"
    using mapE_nth [OF im assms(3)] .
  have "r < length (zip ex im)"
    using assms(2,3) le li by simp
  from mapE_nth [OF sub this] have c: "sub_cell (ex ! r) (im ! r) = Inr (net ! r)"
    using assms(2,3) le li by simp
  from abs_fillna_Inr [OF a] abs_fillna_Inr [OF b] c
  show "net ! r = Num (\<bar>flow_value (e ! r)\<bar> - \<bar>flow_value (i ! r)\<bar>)"
    and "is_numeric (e ! r) \<or> e ! r = NaT" and "is_numeric (i ! r) \<or> i ! r = NaT"
    by auto
qed

subsection \<open>The loop over the partners\<close>

lemma net_flows_keeps:
  "net_flows ps df = Inr df' \<Longrightarrow>
     nrows df' = nrows df \<and>
     filter (\<lambda>p. \<not> is_net (fst p)) (columns df') = filter (\<lambda>p. \<not> is_net (fst p)) (columns df)"
proof (induction ps arbitrary: df)
  case Nil
  then show ?case by simp
next
  case (Cons p ps)
  obtain code e i where p: "p = (code, e, i)" by (cases p)
  show ?case
  proof (cases "get_col df e \<noteq> None \<and> get_col df i \<noteq> None")
    case True
    then obtain ec ic where g: "get_col df e = Some ec" "get_col df i = Some ic" by auto
    with Cons.prems p obtain net where
      "net_flows ps (set_col df (net_name code) net) = Inr df'"
      by (auto simp: bindE_eq_Inr)
    from Cons.IH [OF this] show ?thesis
      by (simp add: set_col_def other_cols_update_net)
  next
    case False
    with Cons.prems p have "net_flows ps df = Inr df'"
      by (auto split: option.splits)
    from Cons.IH [OF this] show ?thesis .
  qed
qed

lemma net_flows_get_col:
  assumes "net_flows ps df = Inr df'" and "\<not> is_net c"
  shows "get_col df' c = get_col df c"
proof -
  have "map_of (filter (\<lambda>p. \<not> is_net (fst p)) (columns df')) c
        = map_of (filter (\<lambda>p. \<not> is_net (fst p)) (columns df)) c"
    using net_flows_keeps [OF assms(1)] by simp
  with assms(2) show ?thesis
    by (simp add: get_col_def map_of_filter [where P = "\<lambda>c. \<not> is_net c"] restrict_map_def)
qed

lemma net_flows_wf:
  "wf_frame df \<Longrightarrow> net_flows ps df = Inr df' \<Longrightarrow> wf_frame df'"
proof (induction ps arbitrary: df)
  case Nil
  then show ?case by simp
next
  case (Cons p ps)
  obtain code e i where p: "p = (code, e, i)" by (cases p)
  show ?case
  proof (cases "get_col df e \<noteq> None \<and> get_col df i \<noteq> None")
    case True
    then obtain ec ic where g: "get_col df e = Some ec" "get_col df i = Some ic" by auto
    with Cons.prems p obtain net where n: "series_net ec ic = Inr net" and
      r: "net_flows ps (set_col df (net_name code) net) = Inr df'"
      by (auto simp: bindE_eq_Inr)
    have "length net = nrows df"
      using series_net_length [OF n] wf_get_col [OF Cons.prems(1)] g by simp
    from Cons.IH [OF wf_set_col [OF Cons.prems(1) this] r] show ?thesis .
  next
    case False
    with Cons.prems p have "net_flows ps df = Inr df'"
      by (auto split: option.splits)
    from Cons.IH [OF Cons.prems(1) this] show ?thesis .
  qed
qed

lemma partner_configs_raw_named: "raw_named partner_configs"
  by (simp add: raw_named_def partner_configs_def is_net_def)

lemma partner_configs_distinct: "distinct (map fst partner_configs)"
  by (simp add: partner_configs_def)

lemma net_flows_other:
  "net_flows ps df = Inr df' \<Longrightarrow> c \<notin> (\<lambda>(code, e, i). net_name code) ` set ps \<Longrightarrow>
     get_col df' c = get_col df c"
proof (induction ps arbitrary: df)
  case Nil
  then show ?case by simp
next
  case (Cons p ps)
  obtain code e i where p: "p = (code, e, i)" by (cases p)
  from Cons.prems(2) p have c: "c \<noteq> net_name code"
    and rest: "c \<notin> (\<lambda>(code, e, i). net_name code) ` set ps" by auto
  show ?case
  proof (cases "get_col df e \<noteq> None \<and> get_col df i \<noteq> None")
    case True
    then obtain ec ic where g: "get_col df e = Some ec" "get_col df i = Some ic" by auto
    with Cons.prems p obtain net where
      "net_flows ps (set_col df (net_name code) net) = Inr df'"
      by (auto simp: bindE_eq_Inr)
    from Cons.IH [OF this rest] c show ?thesis
      by (simp add: get_col_set_col)
  next
    case False
    with Cons.prems p have "net_flows ps df = Inr df'"
      by (auto split: option.splits)
    from Cons.IH [OF this rest] show ?thesis .
  qed
qed

lemma net_flows_partner:
  assumes "net_flows ps df = Inr df'" and "distinct (map fst ps)" and "raw_named ps"
    and "(code, e, i) \<in> set ps" and "get_col df e = Some ec" and "get_col df i = Some ic"
  shows "\<exists>net. series_net ec ic = Inr net \<and> get_col df' (net_name code) = Some net"
  using assms
proof (induction ps arbitrary: df)
  case Nil
  then show ?case by simp
next
  case (Cons p ps)
  obtain code' e' i' where p: "p = (code', e', i')" by (cases p)
  have raw: "raw_named ps" using Cons.prems(3) by (simp add: raw_named_def)
  have dist: "distinct (map fst ps)" using Cons.prems(2) by simp
  show ?case
  proof (cases "(code, e, i) = p")
    case True
    with p Cons.prems(1,5,6) obtain net where n: "series_net ec ic = Inr net" and
      r: "net_flows ps (set_col df (net_name code) net) = Inr df'"
      by (auto simp: bindE_eq_Inr)
    have "net_name code \<notin> (\<lambda>(code, e, i). net_name code) ` set ps"
      using Cons.prems(2) True by force
    from net_flows_other [OF r this] n show ?thesis
      by (simp add: get_col_set_col)
  next
    case False
    with Cons.prems(4) have mem: "(code, e, i) \<in> set ps" by simp
    from Cons.prems(3) mem have ne: "\<not> is_net e" "\<not> is_net i"
      by (auto simp: raw_named_def)
    show ?thesis
    proof (cases "get_col df e' \<noteq> None \<and> get_col df i' \<noteq> None")
      case True
      then obtain a b where g: "get_col df e' = Some a" "get_col df i' = Some b" by auto
      with Cons.prems(1) p obtain net where
        r: "net_flows ps (set_col df (net_name code') net) = Inr df'"
        by (auto simp: bindE_eq_Inr)
      have "get_col (set_col df (net_name code') net) e = Some ec"
        "get_col (set_col df (net_name code') net) i = Some ic"
        using ne Cons.prems(5,6) is_net_name [of code'] by (auto simp: get_col_set_col)
      from Cons.IH [OF r dist raw mem this] show ?thesis .
    next
      case False
      with Cons.prems(1) p have "net_flows ps df = Inr df'"
        by (auto split: option.splits)
      from Cons.IH [OF this dist raw mem Cons.prems(5,6)] show ?thesis .
    qed
  qed
qed

lemma net_flows_names:
  assumes "net_flows ps df = Inr df'" and "raw_named ps"
  shows "fst ` set (columns df') = fst ` set (columns df) \<union> produced ps df"
  using assms
proof (induction ps arbitrary: df)
  case Nil
  then show ?case by (simp add: produced_def)
next
  case (Cons p ps)
  obtain code e i where p: "p = (code, e, i)" by (cases p)
  have raw: "raw_named ps" using Cons.prems(2) by (simp add: raw_named_def)
  show ?case
  proof (cases "get_col df e \<noteq> None \<and> get_col df i \<noteq> None")
    case True
    then obtain ec ic where g: "get_col df e = Some ec" "get_col df i = Some ic" by auto
    with Cons.prems p obtain net where
      r: "net_flows ps (set_col df (net_name code) net) = Inr df'"
      by (auto simp: bindE_eq_Inr)
    let ?d = "set_col df (net_name code) net"
    have "get_col ?d c = get_col df c" if "\<not> is_net c" for c
      using that is_net_name [of code] by (auto simp: get_col_set_col)
    then have same: "produced ps ?d = produced ps df"
      using raw unfolding produced_def raw_named_def by fastforce
    have "produced (p # ps) df = insert (net_name code) (produced ps df)"
      using True p by (auto simp: produced_def)
    moreover have "fst ` set (columns ?d) = insert (net_name code) (fst ` set (columns df))"
      by (simp add: set_col_def dom_update)
    ultimately show ?thesis
      using Cons.IH [OF r raw] same by auto
  next
    case False
    with Cons.prems p have r: "net_flows ps df = Inr df'"
      by (auto split: option.splits)
    have "produced (p # ps) df = produced ps df"
      using False p by (auto simp: produced_def)
    with Cons.IH [OF r raw] show ?thesis by simp
  qed
qed

lemma net_flows_none:
  "produced ps df = {} \<Longrightarrow> net_flows ps df = Inr df"
proof (induction ps)
  case Nil
  then show ?case by simp
next
  case (Cons p ps)
  obtain code e i where p: "p = (code, e, i)" by (cases p)
  have "net_name code \<in> produced (p # ps) df"
    if "get_col df e \<noteq> None" and "get_col df i \<noteq> None"
    unfolding produced_def using that p by fastforce
  with Cons.prems have "get_col df e = None \<or> get_col df i = None"
    by blast
  moreover have "produced ps df \<subseteq> produced (p # ps) df"
    unfolding produced_def by fastforce
  with Cons.prems have "produced ps df = {}"
    by blast
  ultimately show ?case
    using Cons.IH p by (auto split: option.splits)
qed

text \<open>The loop reads the raw columns and the net columns only.\<close>

lemma net_flows_rel:
  assumes "filter (\<lambda>p. is_net (fst p)) (columns d1) = filter (\<lambda>p. is_net (fst p)) (columns d2)"
    and "\<forall>(code, e, i)\<in>set ps. get_col d1 e = get_col d2 e \<and> get_col d1 i = get_col d2 i"
  shows "rel_sum (=)
           (\<lambda>a b. filter (\<lambda>p. is_net (fst p)) (columns a) = filter (\<lambda>p. is_net (fst p)) (columns b))
           (net_flows ps d1) (net_flows ps d2)"
  using assms
proof (induction ps arbitrary: d1 d2)
  case Nil
  then show ?case by simp
next
  case (Cons p ps)
  obtain code e i where p: "p = (code, e, i)" by (cases p)
  from Cons.prems(2) p have same: "get_col d1 e = get_col d2 e" "get_col d1 i = get_col d2 i"
    and rest: "\<forall>(code, e, i)\<in>set ps. get_col d1 e = get_col d2 e \<and> get_col d1 i = get_col d2 i"
    by auto
  show ?case
  proof (cases "get_col d1 e \<noteq> None \<and> get_col d1 i \<noteq> None")
    case True
    then obtain ec ic where g: "get_col d1 e = Some ec" "get_col d1 i = Some ic" by auto
    show ?thesis
    proof (cases "series_net ec ic")
      case (Inl err)
      with g same p show ?thesis by simp
    next
      case (Inr net)
      let ?a = "set_col d1 (net_name code) net" and ?b = "set_col d2 (net_name code) net"
      have 1: "filter (\<lambda>p. is_net (fst p)) (columns ?a) = filter (\<lambda>p. is_net (fst p)) (columns ?b)"
        using Cons.prems(1) by (simp add: set_col_def net_cols_update_net)
      have 2: "\<forall>(code, e, i)\<in>set ps. get_col ?a e = get_col ?b e \<and> get_col ?a i = get_col ?b i"
        using rest by (auto simp: get_col_set_col)
      from Cons.IH [OF 1 2] g same p Inr show ?thesis by simp
    qed
  next
    case False
    with same p Cons.IH [OF Cons.prems(1) rest] show ?thesis
      by (auto split: option.splits)
  qed
qed

subsection \<open>Sums\<close>

lemma num_skipna_Inr: "num_skipna c = Inr v \<longleftrightarrow> is_numeric c \<and> v = flow_value c"
  by (cases c) (auto simp: is_numeric_def flow_value_def)

lemma mapE_num_skipna:
  "mapE num_skipna cs = Inr vs \<longleftrightarrow> (\<forall>c\<in>set cs. is_numeric c) \<and> vs = map flow_value cs"
proof (induction cs arbitrary: vs)
  case Nil
  show ?case by auto
next
  case (Cons c cs)
  show ?case
    by (auto simp: bindE_eq_Inr Cons.IH num_skipna_Inr)
qed

lemma series_sum_Inr:
  "series_sum cs = Inr s \<longleftrightarrow> (\<forall>c\<in>set cs. is_numeric c) \<and> s = sum_list (map flow_value cs)"
  by (auto simp: series_sum_def bindE_eq_Inr mapE_num_skipna)

lemma sum_axis1_Inr:
  assumes "sum_axis1 n cols = Inr tot"
  shows "length tot = n"
    and "r < n \<Longrightarrow> tot ! r = Num (\<Sum>col\<leftarrow>cols. flow_value (col ! r))"
    and "r < n \<Longrightarrow> col \<in> set cols \<Longrightarrow> is_numeric (col ! r)"
proof -
  let ?f = "\<lambda>i. bindE (series_sum (map (\<lambda>col. col ! i) cols)) (\<lambda>s. Inr (Num s))"
  have m: "mapE ?f [0..<n] = Inr tot"
    using assms by (simp add: sum_axis1_def)
  from mapE_length [OF m] show "length tot = n" by simp
  {
    assume "r < n"
    with mapE_nth [OF m, of r] have "?f r = Inr (tot ! r)" by simp
    then obtain s where s: "series_sum (map (\<lambda>col. col ! r) cols) = Inr s" and t: "tot ! r = Num s"
      by (auto simp: bindE_eq_Inr)
    from s have "(\<forall>c\<in>set (map (\<lambda>col. col ! r) cols). is_numeric c)"
      and "s = sum_list (map flow_value (map (\<lambda>col. col ! r) cols))"
      by (simp_all add: series_sum_Inr)
    with t have "tot ! r = Num (\<Sum>col\<leftarrow>cols. flow_value (col ! r))"
      and "\<forall>col\<in>set cols. is_numeric (col ! r)"
      by (simp_all add: comp_def)
  }
  then show "r < n \<Longrightarrow> tot ! r = Num (\<Sum>col\<leftarrow>cols. flow_value (col ! r))"
    and "r < n \<Longrightarrow> col \<in> set cols \<Longrightarrow> is_numeric (col ! r)"
    by blast+
qed

subsection \<open>Calendar columns\<close>

lemma dt_cell_total:
  assumes "is_stamp c"
  shows "\<exists>y. dt_date c = Inr y" and "\<exists>y. dt_year c = Inr y" and "\<exists>y. dt_month c = Inr y"
    and "\<exists>y. dt_day c = Inr y" and "\<exists>y. dt_hour c = Inr y"
  using assms by (cases c; simp add: is_stamp_def)+

lemma dt_field_total:
  assumes "\<forall>c\<in>set dt. is_stamp c"
  shows "\<exists>a. mapE dt_date dt = Inr a" and "\<exists>a. mapE dt_year dt = Inr a"
    and "\<exists>a. mapE dt_month dt = Inr a" and "\<exists>a. mapE dt_day dt = Inr a"
    and "\<exists>a. mapE dt_hour dt = Inr a"
  using assms by (simp_all add: mapE_total dt_cell_total)

lemma assign_dt_Inr:
  "assign_dt name field df = Inr df' \<longleftrightarrow>
     (\<exists>dt col. get_col df ''datetime'' = Some dt \<and> mapE field dt = Inr col \<and> df' = set_col df name col)"
  by (auto simp: assign_dt_def bindE_eq_Inr split: option.splits)

lemma net_filter_eq: "(\<lambda>(c, col). is_net c) = (\<lambda>p. is_net (fst p))"
  by (simp add: fun_eq_iff)

lemma not_net_fixed [simp]:
  "\<not> is_net ''datetime''" "\<not> is_net ''Date''" "\<not> is_net ''hour''" "\<not> is_net tranche"
  "\<not> is_net ''date''" "\<not> is_net ''year''" "\<not> is_net ''month''" "\<not> is_net ''day''"
  by (simp_all add: is_net_def tranche_def)

lemma is_net_total [simp]: "is_net ''net_total''"
  by (simp add: is_net_def)

text \<open>What a successful run of lines 47-92 has computed.\<close>

lemma reconstruct_Inr:
  assumes "reconstruct df0 = Inr out"
  obtains dt df tot date year month day hour where
    "get_col df0 ''datetime'' = Some dt" and "\<not> list_all isna dt"
    and "net_flows partner_configs (drop_net_cols df0) = Inr df"
    and "filter (\<lambda>p. is_net (fst p)) (columns df) \<noteq> []"
    and "sum_axis1 (nrows df) (map snd (filter (\<lambda>p. is_net (fst p)) (columns df))) = Inr tot"
    and "mapE dt_date dt = Inr date" and "mapE dt_year dt = Inr year"
    and "mapE dt_month dt = Inr month" and "mapE dt_day dt = Inr day"
    and "mapE dt_hour dt = Inr hour"
    and "out = set_col (set_col (set_col (set_col (set_col (set_col df
                 ''net_total'' tot) ''date'' date) ''year'' year) ''month'' month)
                 ''day'' day) ''hour'' hour"
proof -
  from assms obtain dt where dt: "get_col df0 ''datetime'' = Some dt" and na: "\<not> list_all isna dt"
    by (auto simp: reconstruct_def split: option.splits if_splits)
  from assms dt na obtain df where
    nf: "net_flows partner_configs (drop_net_cols df0) = Inr df"
    by (auto simp: reconstruct_def bindE_eq_Inr)
  have d3: "get_col df ''datetime'' = Some dt"
    using net_flows_get_col [OF nf, of "''datetime''"] dt by (simp add: get_col_drop_net)
  let ?N = "filter (\<lambda>p. is_net (fst p)) (columns df)"
  from assms dt na nf have ne: "?N \<noteq> []"
    by (auto simp: reconstruct_def net_filter_eq Let_def split: if_splits)
  from assms dt na nf ne obtain tot d1 d2 d3 d4 where
    tot: "sum_axis1 (nrows df) (map snd ?N) = Inr tot" and
    a1: "assign_dt ''date'' dt_date (set_col df ''net_total'' tot) = Inr d1" and
    a2: "assign_dt ''year'' dt_year d1 = Inr d2" and
    a3: "assign_dt ''month'' dt_month d2 = Inr d3" and
    a4: "assign_dt ''day'' dt_day d3 = Inr d4" and
    a5: "assign_dt ''hour'' dt_hour d4 = Inr out"
    by (auto simp: reconstruct_def net_filter_eq Let_def bindE_eq_Inr)
  from a1 d3 obtain date where 1: "mapE dt_date dt = Inr date"
    and e1: "d1 = set_col (set_col df ''net_total'' tot) ''date'' date"
    by (auto simp: assign_dt_Inr get_col_set_col)
  from a2 d3 e1 obtain year where 2: "mapE dt_year dt = Inr year"
    and e2: "d2 = set_col d1 ''year'' year"
    by (auto simp: assign_dt_Inr get_col_set_col)
  from a3 d3 e1 e2 obtain month where 3: "mapE dt_month dt = Inr month"
    and e3: "d3 = set_col d2 ''month'' month"
    by (auto simp: assign_dt_Inr get_col_set_col)
  from a4 d3 e1 e2 e3 obtain day where 4: "mapE dt_day dt = Inr day"
    and e4: "d4 = set_col d3 ''day'' day"
    by (auto simp: assign_dt_Inr get_col_set_col)
  from a5 d3 e1 e2 e3 e4 obtain hour where 5: "mapE dt_hour dt = Inr hour"
    and e5: "out = set_col d4 ''hour'' hour"
    by (auto simp: assign_dt_Inr get_col_set_col)
  show thesis
    using that [OF dt na nf ne tot 1 2 3 4 5] e1 e2 e3 e4 e5 by simp
qed

subsection \<open>Timestamp resolution\<close>

lemma length_to_datetime [simp]: "length (to_datetime L col) = length col"
  by (simp add: to_datetime_def)

lemma to_datetime_nth:
  "r < length col \<Longrightarrow>
     to_datetime L col ! r = (case parse_datetime L col (col ! r) of Some t \<Rightarrow> Timestamp t | None \<Rightarrow> NaT)"
  by (simp add: to_datetime_def)

lemma to_datetime_stamps: "\<forall>c\<in>set (to_datetime L col). is_stamp c"
  by (auto simp: to_datetime_def is_stamp_def split: option.splits)

lemma hour_slot_length: "hour_slot L slot = Inr hours \<Longrightarrow> length hours = length slot"
  by (auto simp: hour_slot_def bindE_eq_Inr dest!: mapE_length)

lemma resolve_datetime_Inr:
  assumes "resolve_datetime L raw = Inr df"
  obtains (combined) c where "get_col raw ''datetime'' = Some c"
      and "df = set_col raw ''datetime'' (to_datetime L c)"
  | (slots) d slot hours dt where "get_col raw ''datetime'' = None"
      and "get_col raw ''Date'' = Some d" and "get_col raw tranche = Some slot"
      and "hour_slot L slot = Inr hours"
      and "mapE (\<lambda>(a, h). add_hours a h) (zip (to_datetime L d) hours) = Inr dt"
      and "df = set_col (set_col (set_col raw ''Date'' (to_datetime L d)) ''hour'' hours) ''datetime'' dt"
  using assms
  by (auto simp: resolve_datetime_def Let_def bindE_eq_Inr split: option.splits)

lemma resolve_datetime_keeps:
  assumes "resolve_datetime L raw = Inr df"
  shows "nrows df = nrows raw"
    and "c \<noteq> ''datetime'' \<Longrightarrow> c \<noteq> ''Date'' \<Longrightarrow> c \<noteq> ''hour'' \<Longrightarrow> get_col df c = get_col raw c"
  using assms by (auto elim!: resolve_datetime_Inr simp: get_col_set_col)

lemma resolve_datetime_wf:
  assumes "resolve_datetime L raw = Inr df" and "wf_frame raw"
  shows "wf_frame df"
  using assms(1)
proof (cases rule: resolve_datetime_Inr)
  case (combined c)
  with assms(2) show ?thesis
    by (simp add: wf_set_col wf_get_col)
next
  case (slots d slot hours dt)
  have ld: "length d = nrows raw" and ls: "length slot = nrows raw"
    using slots(2,3) assms(2) by (auto dest: wf_get_col)
  have lh: "length hours = nrows raw"
    using hour_slot_length [OF slots(4)] ls by simp
  have "length dt = nrows raw"
    using mapE_length [OF slots(5)] ld lh by simp
  with slots(6) assms(2) ld lh show ?thesis
    by (simp add: wf_set_col)
qed

lemma add_hours_stamp: "add_hours a h = Inr c \<Longrightarrow> is_stamp c"
  by (cases "(a, h)" rule: add_hours.cases) (auto simp: is_stamp_def)

lemma resolve_datetime_stamps:
  assumes "resolve_datetime L raw = Inr df"
  shows "\<exists>dt. get_col df ''datetime'' = Some dt \<and> (\<forall>c\<in>set dt. is_stamp c)"
  using assms
proof (cases rule: resolve_datetime_Inr)
  case (combined c)
  then show ?thesis
    by (simp add: get_col_set_col to_datetime_stamps)
next
  case (slots d slot hours dt)
  have "is_stamp c" if "c \<in> set dt" for c
  proof -
    from that obtain r where r: "r < length dt" and c: "c = dt ! r"
      by (auto simp: in_set_conv_nth)
    from mapE_length [OF slots(5)] r have "r < length (zip (to_datetime L d) hours)"
      by simp
    from mapE_nth [OF slots(5) this] c show ?thesis
      by (auto simp: case_prod_beta dest: add_hours_stamp)
  qed
  with slots(6) show ?thesis
    by (simp add: get_col_set_col)
qed

lemma partner_raw_names:
  assumes "(code, e, i) \<in> set partner_configs"
  shows "e \<noteq> ''datetime''" "e \<noteq> ''Date''" "e \<noteq> ''hour''" "\<not> is_net e"
    and "i \<noteq> ''datetime''" "i \<noteq> ''Date''" "i \<noteq> ''hour''" "\<not> is_net i"
  using assms by (auto simp: partner_configs_def is_net_def)

lemma reconstruct_keeps:
  assumes "reconstruct df0 = Inr out"
  shows "nrows out = nrows df0"
    and "wf_frame df0 \<Longrightarrow> wf_frame out"
proof -
  from assms obtain dt df tot date year month day hour where
    dt: "get_col df0 ''datetime'' = Some dt" and
    nf: "net_flows partner_configs (drop_net_cols df0) = Inr df" and
    tot: "sum_axis1 (nrows df) (map snd (filter (\<lambda>p. is_net (fst p)) (columns df))) = Inr tot" and
    m: "mapE dt_date dt = Inr date" "mapE dt_year dt = Inr year" "mapE dt_month dt = Inr month"
       "mapE dt_day dt = Inr day" "mapE dt_hour dt = Inr hour" and
    out: "out = set_col (set_col (set_col (set_col (set_col (set_col df
                 ''net_total'' tot) ''date'' date) ''year'' year) ''month'' month)
                 ''day'' day) ''hour'' hour"
    by (rule reconstruct_Inr)
  have n: "nrows df = nrows df0"
    using net_flows_keeps [OF nf] by simp
  with out show "nrows out = nrows df0" by simp
  assume wf: "wf_frame df0"
  have wdf: "wf_frame df"
    using net_flows_wf [OF wf_drop_net [OF wf] nf] .
  have "length dt = nrows df"
    using wf_get_col [OF wf dt] n by simp
  with m have "length date = nrows df" "length year = nrows df" "length month = nrows df"
    "length day = nrows df" "length hour = nrows df"
    by (auto dest: mapE_length)
  moreover have "length tot = nrows df"
    using sum_axis1_Inr(1) [OF tot] .
  ultimately show "wf_frame out"
    unfolding out using wdf by (simp add: wf_set_col)
qed

lemma reconstruct_net_col:
  assumes "reconstruct df0 = Inr out" and "is_net c" and "c \<noteq> ''net_total''"
  obtains df where "net_flows partner_configs (drop_net_cols df0) = Inr df"
    and "get_col out c = get_col df c"
proof -
  from assms(1) obtain df tot date year month day hour where
    nf: "net_flows partner_configs (drop_net_cols df0) = Inr df" and
    out: "out = set_col (set_col (set_col (set_col (set_col (set_col df
                 ''net_total'' tot) ''date'' date) ''year'' year) ''month'' month)
                 ''day'' day) ''hour'' hour"
    by (rule reconstruct_Inr)
  have "c \<noteq> ''date''" "c \<noteq> ''year''" "c \<noteq> ''month''" "c \<noteq> ''day''" "c \<noteq> ''hour''"
    using assms(2) not_net_fixed by blast+
  with assms(3) have "get_col out c = get_col df c"
    unfolding out by (simp add: get_col_set_col)
  with nf that show thesis by blast
qed

subsection \<open>The net columns of the result\<close>

lemma set_update_cases:
  "(c, col) \<in> set (AList.update k v al) \<Longrightarrow> (c, col) = (k, v) \<or> (c, col) \<in> set al"
  by (induction al) (auto split: if_splits)

lemma filter_other_update:
  "filter (\<lambda>p. fst p \<noteq> k) (AList.update k v al) = filter (\<lambda>p. fst p \<noteq> k) al"
  by (induction al) auto

lemma series_net_all_num:
  assumes "series_net e i = Inr net" and "x \<in> set net"
  shows "\<exists>v. x = Num v"
proof -
  from assms(2) obtain r where r: "r < length net" and x: "x = net ! r"
    by (auto simp: in_set_conv_nth)
  from series_net_length [OF assms(1)] r have "r < length e" "r < length i" by simp_all
  from series_net_nth(1) [OF assms(1) this] x show ?thesis by blast
qed

lemma net_flows_num:
  "net_flows ps df = Inr df' \<Longrightarrow> net_cols_num df \<Longrightarrow> net_cols_num df'"
proof (induction ps arbitrary: df)
  case Nil
  then show ?case by simp
next
  case (Cons p ps)
  obtain code e i where p: "p = (code, e, i)" by (cases p)
  show ?case
  proof (cases "get_col df e \<noteq> None \<and> get_col df i \<noteq> None")
    case True
    then obtain ec ic where g: "get_col df e = Some ec" "get_col df i = Some ic" by auto
    with Cons.prems p obtain net where n: "series_net ec ic = Inr net" and
      r: "net_flows ps (set_col df (net_name code) net) = Inr df'"
      by (auto simp: bindE_eq_Inr)
    have "net_cols_num (set_col df (net_name code) net)"
      unfolding net_cols_num_def set_col_def
      using Cons.prems(2) series_net_all_num [OF n]
      by (auto simp: net_cols_num_def dest!: set_update_cases)
    from Cons.IH [OF r this] show ?thesis .
  next
    case False
    with Cons.prems p have "net_flows ps df = Inr df'"
      by (auto split: option.splits)
    from Cons.IH [OF this Cons.prems(2)] show ?thesis .
  qed
qed

lemma net_cols_num_drop: "net_cols_num (drop_net_cols df)"
  by (auto simp: net_cols_num_def drop_net_cols_eq)

lemma produced_cong:
  assumes "\<And>code e i. (code, e, i) \<in> set ps \<Longrightarrow>
             get_col d1 e = get_col d2 e \<and> get_col d1 i = get_col d2 i"
  shows "produced ps d1 = produced ps d2"
proof -
  have "c \<in> produced ps a \<Longrightarrow> c \<in> produced ps b"
    if "\<And>code e i. (code, e, i) \<in> set ps \<Longrightarrow> get_col a e = get_col b e \<and> get_col a i = get_col b i"
    for a b c
    unfolding produced_def using that by fastforce
  from this [of d1 d2] this [of d2 d1] assms show ?thesis
    by (intro set_eqI iffI) simp_all
qed

lemma total_not_produced: "''net_total'' \<notin> produced partner_configs df"
  by (auto simp: produced_def partner_configs_def net_name_def)

lemma produced_is_net: "c \<in> produced ps df \<Longrightarrow> is_net c"
  by (auto simp: produced_def)

text \<open>The net columns after the loop, when it starts without any.\<close>

lemma net_flows_net_names:
  assumes "net_flows ps (drop_net_cols df0) = Inr df" and "raw_named ps"
  shows "fst ` set (filter (\<lambda>p. is_net (fst p)) (columns df)) = produced ps df0"
proof -
  have "produced ps (drop_net_cols df0) = produced ps df0"
    by (rule produced_cong) (use assms(2) in \<open>auto simp: get_col_drop_net raw_named_def\<close>)
  with net_flows_names [OF assms] have
    n: "fst ` set (columns df) = fst ` set (columns (drop_net_cols df0)) \<union> produced ps df0"
    by simp
  have d: "\<not> is_net c" if "c \<in> fst ` set (columns (drop_net_cols df0))" for c
    using that by (auto simp: drop_net_cols_eq)
  have "fst ` set (filter (\<lambda>p. is_net (fst p)) (columns df)) = {c \<in> fst ` set (columns df). is_net c}"
    by force
  also have "\<dots> = {c \<in> fst ` set (columns (drop_net_cols df0)) \<union> produced ps df0. is_net c}"
    by (simp only: n)
  also have "\<dots> = produced ps df0"
    using d produced_is_net by blast
  finally show ?thesis .
qed

lemma filter_absent_key: "k \<notin> fst ` set al \<Longrightarrow> filter (\<lambda>p. fst p \<noteq> k) al = al"
  by (induction al) auto

subsection \<open>Net columns of the raw table\<close>

lemma strip_net_eq: "strip_net df = drop_net_cols df"
  by (simp add: strip_net_def drop_net_cols_eq is_net_def split_def)

lemma resolve_datetime_drop_net:
  "resolve_datetime L (drop_net_cols df) =
     (case resolve_datetime L df of Inl e \<Rightarrow> Inl e | Inr d \<Rightarrow> Inr (drop_net_cols d))"
proof (cases "get_col df ''datetime''")
  case (Some c)
  then show ?thesis
    by (simp add: resolve_datetime_def get_col_drop_net drop_net_set_col)
next
  case None
  show ?thesis
  proof (cases "get_col df ''Date''")
    case n1: None
    with None show ?thesis
      by (simp add: resolve_datetime_def get_col_drop_net)
  next
    case (Some d)
    show ?thesis
    proof (cases "get_col df tranche")
      case n2: None
      with None Some show ?thesis
        by (simp add: resolve_datetime_def get_col_drop_net)
    next
      case s2: (Some slot)
      show ?thesis
      proof (cases "hour_slot L slot")
        case (Inl e)
        with None Some s2 show ?thesis
          by (simp add: resolve_datetime_def get_col_drop_net)
      next
        case (Inr hours)
        show ?thesis
        proof (cases "mapE (\<lambda>(a, h). add_hours a h) (zip (to_datetime L d) hours)")
          case (Inl e)
          with None Some s2 Inr show ?thesis
            by (simp add: resolve_datetime_def get_col_drop_net)
        next
          case r: (Inr dt)
          with None Some s2 Inr show ?thesis
            by (simp add: resolve_datetime_def get_col_drop_net drop_net_set_col)
        qed
      qed
    qed
  qed
qed

lemma reconstruct_drop_net: "reconstruct (drop_net_cols df) = reconstruct df"
  by (simp add: reconstruct_def get_col_drop_net split: option.splits)

lemma reconstruct_no_partner:
  assumes "produced partner_configs df0 = {}"
    and "get_col df0 ''datetime'' = Some dt" and "\<not> list_all isna dt"
  shows "reconstruct df0 = Inl (RuntimeError NoNetColumns)"
proof -
  have "produced partner_configs (drop_net_cols df0) = produced partner_configs df0"
    by (rule produced_cong)
       (use partner_configs_raw_named in \<open>auto simp: get_col_drop_net raw_named_def\<close>)
  with assms(1) have "net_flows partner_configs (drop_net_cols df0) = Inr (drop_net_cols df0)"
    by (simp add: net_flows_none)
  with assms(2,3) show ?thesis
    by (simp add: reconstruct_def net_filter_eq)
qed

lemma produced_empty_iff:
  "produced ps df = {} \<longleftrightarrow> (\<forall>(code, e, i)\<in>set ps. get_col df e = None \<or> get_col df i = None)"
  unfolding produced_def by fastforce

lemma produced_resolved:
  assumes "resolve_datetime L raw = Inr df0"
  shows "produced partner_configs df0 = produced partner_configs raw"
proof -
  have "get_col df0 e = get_col raw e \<and> get_col df0 i = get_col raw i"
    if "(code, e, i) \<in> set partner_configs" for code e i
    using partner_raw_names [OF that] by (simp add: resolve_datetime_keeps(2) [OF assms])
  then show ?thesis
    by (rule produced_cong)
qed

lemma add_hours_NaT: "add_hours NaT h = Inr c \<Longrightarrow> c = NaT"
  by (cases h) auto

lemma all_NaT_isna: "\<forall>c\<in>set dt. c = NaT \<Longrightarrow> list_all isna dt"
  by (induction dt) simp_all

subsection \<open>Rows without a timestamp\<close>

lemma dt_fields_NaT:
  "dt_date NaT = Inr c \<longleftrightarrow> c = NaT" "dt_year NaT = Inr c \<longleftrightarrow> c = NaN"
  "dt_month NaT = Inr c \<longleftrightarrow> c = Str ''NaT''" "dt_day NaT = Inr c \<longleftrightarrow> c = NaN"
  "dt_hour NaT = Inr c \<longleftrightarrow> c = NaN"
  by auto

lemma resolve_datetime_unread:
  assumes "resolve_datetime L raw = Inr df0" and "get_col df0 ''datetime'' = Some dt"
    and "r < length dt"
  shows "get_col raw ''datetime'' = Some c \<Longrightarrow> r < length c \<Longrightarrow>
           parse_datetime L c (c ! r) = None \<Longrightarrow> dt ! r = NaT"
    and "get_col raw ''datetime'' = None \<Longrightarrow> get_col raw ''Date'' = Some d \<Longrightarrow> r < length d \<Longrightarrow>
           parse_datetime L d (d ! r) = None \<Longrightarrow> dt ! r = NaT"
proof -
  show "dt ! r = NaT"
    if "get_col raw ''datetime'' = Some c" "r < length c" "parse_datetime L c (c ! r) = None"
    using assms(1)
  proof (cases rule: resolve_datetime_Inr)
    case (combined c')
    with that(1) assms(2) have "dt = to_datetime L c"
      by (simp add: get_col_set_col)
    then show ?thesis
      using that(2,3) by (simp add: to_datetime_nth)
  next
    case (slots d slot hours dt')
    with that show ?thesis by simp
  qed
  show "dt ! r = NaT"
    if "get_col raw ''datetime'' = None" "get_col raw ''Date'' = Some d" "r < length d"
      "parse_datetime L d (d ! r) = None"
    using assms(1)
  proof (cases rule: resolve_datetime_Inr)
    case (combined c')
    with that show ?thesis by simp
  next
    case (slots d' slot hours dt')
    with that(2) have d: "d' = d" by simp
    from slots(6) assms(2) have dt: "dt' = dt"
      by (simp add: get_col_set_col)
    from mapE_length [OF slots(5)] assms(3) dt
    have r: "r < length (zip (to_datetime L d) hours)"
      by (simp add: d)
    from mapE_nth [OF slots(5) [unfolded d] r] r that(3,4)
    have "add_hours NaT (hours ! r) = Inr (dt' ! r)"
      by (simp add: to_datetime_nth)
    then show ?thesis
      using dt by (auto dest: add_hours_NaT)
  qed
qed

subsection \<open>The hour slot\<close>

lemma mapE_map: "mapE f (map g xs) = mapE (\<lambda>x. f (g x)) xs"
  by (induction xs) simp_all

lemma mapE_bind_Inr:
  "bindE (mapE f xs) (mapE g) = Inr zs \<longleftrightarrow> mapE (\<lambda>x. bindE (f x) g) xs = Inr zs"
proof (induction xs arbitrary: zs)
  case Nil
  show ?case by simp
next
  case (Cons x xs)
  have IH: "(\<exists>ys. mapE f xs = Inr ys \<and> mapE g ys = Inr zs') \<longleftrightarrow> mapE (\<lambda>x. bindE (f x) g) xs = Inr zs'"
    for zs'
    using Cons.IH [of zs'] by (simp add: bindE_eq_Inr)
  show ?case
    by (auto simp: bindE_eq_Inr IH [symmetric])
qed

lemma hour_slot_Inr_iff:
  "hour_slot L slot = Inr hs \<longleftrightarrow> mapE (hour_cell L) slot = Inr hs"
proof -
  let ?g = "\<lambda>f. bindE (astype_int (fillna (Num 0) f)) (clip 0 23)"
  have "hour_slot L slot = bindE (mapE (astype_float L) slot) (\<lambda>fs.
          bindE (mapE (\<lambda>f. astype_int (fillna (Num 0) f)) fs) (mapE (clip 0 23)))"
    by (simp add: hour_slot_def mapE_map)
  moreover have "bindE (mapE (\<lambda>f. astype_int (fillna (Num 0) f)) fs) (mapE (clip 0 23)) = Inr hs
      \<longleftrightarrow> mapE ?g fs = Inr hs" for fs
    by (rule mapE_bind_Inr)
  ultimately have "hour_slot L slot = Inr hs \<longleftrightarrow>
      (\<exists>fs. mapE (astype_float L) slot = Inr fs \<and> mapE ?g fs = Inr hs)"
    by (simp add: bindE_eq_Inr)
  also have "\<dots> \<longleftrightarrow> bindE (mapE (astype_float L) slot) (mapE ?g) = Inr hs"
    by (simp add: bindE_eq_Inr)
  also have "\<dots> \<longleftrightarrow> mapE (\<lambda>c. bindE (astype_float L c) ?g) slot = Inr hs"
    by (rule mapE_bind_Inr)
  finally show ?thesis
    by (simp add: hour_cell_def [abs_def])
qed

lemma clip_of_int: "min (23::real) (max 0 (of_int k)) = of_int (min 23 (max 0 k))"
  by (simp add: min_def max_def)

lemma hour_cell_Inr:
  "hour_cell L c = Inr h \<longleftrightarrow> (\<exists>k. slot_hour L c = Some k \<and> h = Num (of_int k))"
proof (cases c)
  case (Str s)
  then show ?thesis
    by (cases "parse_float L s")
       (auto simp: hour_cell_def slot_hour_def slot_number_def fillna_def clip_of_int trunc_def
             split: option.splits)
qed (auto simp: hour_cell_def slot_hour_def slot_number_def fillna_def clip_of_int trunc_def)

lemma astype_float_Inl:
  "astype_float L c = Inl e \<Longrightarrow>
     slot_number L c = None \<and> (e = ValueError \<or> e = TypeError) \<and> ((\<exists>s. c = Str s) \<longrightarrow> e = ValueError)"
  by (cases c) (auto simp: slot_number_def split: option.splits)

lemma astype_float_Inr: "astype_float L c = Inr f \<Longrightarrow> (\<exists>x. f = Num x) \<or> f = NaN"
  by (cases c) (auto split: option.splits)

lemma astype_int_fillna:
  "(\<exists>x. f = Num x) \<or> f = NaN \<Longrightarrow> astype_int (fillna (Num 0) f) = Inr i \<Longrightarrow> \<exists>x. i = Num x"
  by (auto simp: fillna_def)

lemma hour_slot_Inl:
  assumes "hour_slot L slot = Inl e"
  shows "\<exists>c\<in>set slot. astype_float L c = Inl e"
proof (cases "mapE (astype_float L) slot")
  case (Inl e')
  with assms have "e' = e" by (simp add: hour_slot_def)
  with mapE_Inl [OF Inl] show ?thesis by simp
next
  case (Inr fs)
  have shape: "(\<exists>x. f = Num x) \<or> f = NaN" if "f \<in> set fs" for f
  proof -
    from that obtain r where "r < length fs" "f = fs ! r" by (auto simp: in_set_conv_nth)
    with mapE_nth [OF Inr, of r] mapE_length [OF Inr] show ?thesis
      by (auto dest: astype_float_Inr)
  qed
  have "\<exists>i. astype_int (fillna (Num 0) f) = Inr (Num i)" if "f \<in> set fs" for f
    using shape [OF that] by (auto simp: fillna_def)
  then obtain ints where ints: "mapE (\<lambda>f. astype_int (fillna (Num 0) f)) fs = Inr ints"
    using mapE_total [of fs "\<lambda>f. astype_int (fillna (Num 0) f)"] by blast
  have "\<exists>x. i = Num x" if "i \<in> set ints" for i
  proof -
    from that obtain r where r: "r < length ints" "i = ints ! r" by (auto simp: in_set_conv_nth)
    with mapE_length [OF ints] have "r < length fs" by simp
    from mapE_nth [OF ints this] have "astype_int (fillna (Num 0) (fs ! r)) = Inr (ints ! r)" .
    with astype_int_fillna [OF shape [of "fs ! r"]] \<open>r < length fs\<close> r(2) show ?thesis
      by simp
  qed
  then have "\<exists>h. clip 0 23 i = Inr h" if "i \<in> set ints" for i
    using that by fastforce
  then obtain hs where "mapE (clip 0 23) ints = Inr hs"
    using mapE_total [of ints "clip 0 23"] by blast
  with Inr ints assms show ?thesis
    by (simp add: hour_slot_def mapE_map)
qed

lemma slot_hour_range: "slot_hour L c = Some k \<Longrightarrow> 0 \<le> k \<and> k \<le> 23"
  by (auto simp: slot_hour_def)

lemma slot_hour_NaN: "slot_hour L NaN = Some 0"
  by (simp add: slot_hour_def slot_number_def trunc_def)

lemma slot_hour_None: "slot_hour L c = None \<longleftrightarrow> slot_number L c = None"
  by (simp add: slot_hour_def)

lemma add_hours_stamp_hour:
  "add_hours (case p of Some t \<Rightarrow> Timestamp t | None \<Rightarrow> NaT) (Num (of_int k))
     = Inr (case p of None \<Rightarrow> NaT | Some t \<Rightarrow> Timestamp (t + k * ns_per_hour))"
  by (cases p) simp_all

lemma resolve_datetime_slots:
  assumes "get_col raw ''datetime'' = None" and "get_col raw ''Date'' = Some d"
    and "get_col raw tranche = Some slot"
  shows "resolve_datetime L raw =
           bindE (hour_slot L slot) (\<lambda>hours.
           bindE (mapE (\<lambda>(a, h). add_hours a h) (zip (to_datetime L d) hours)) (\<lambda>dt.
           Inr (set_col (set_col (set_col raw ''Date'' (to_datetime L d)) ''hour'' hours) ''datetime'' dt)))"
  using assms by (simp add: resolve_datetime_def Let_def)

lemma hour_slot_cases:
  obtains (ok) hours where "hour_slot L slot = Inr hours" and "length hours = length slot"
      and "\<And>r. r < length slot \<Longrightarrow>
             \<exists>k. slot_hour L (slot ! r) = Some k \<and> hours ! r = Num (of_int k)"
  | (raised) e c where "hour_slot L slot = Inl e" and "c \<in> set slot" and "slot_number L c = None"
      and "e = ValueError \<or> e = TypeError" and "(\<exists>s. c = Str s) \<longrightarrow> e = ValueError"
proof (cases "hour_slot L slot")
  case (Inl e)
  from hour_slot_Inl [OF Inl] obtain c where c: "c \<in> set slot" "astype_float L c = Inl e"
    by blast
  from astype_float_Inl [OF c(2)] c(1) Inl show thesis
    by (intro raised [of e c]) simp_all
next
  case (Inr hours)
  then have m: "mapE (hour_cell L) slot = Inr hours"
    by (simp add: hour_slot_Inr_iff)
  have "\<exists>k. slot_hour L (slot ! r) = Some k \<and> hours ! r = Num (of_int k)" if "r < length slot" for r
    using mapE_nth [OF m that] by (simp add: hour_cell_Inr)
  with Inr mapE_length [OF m] show thesis
    by (intro ok [of hours]) simp_all
qed

subsection \<open>Formatting\<close>

lemma replace_comma_unit:
  "replace_comma (s @ '' TWh'') = replace_comma s @ '' TWh''"
  "replace_comma (s @ '' GWh'') = replace_comma s @ '' GWh''"
  "replace_comma (s @ '' MWh'') = replace_comma s @ '' MWh''"
  by (simp_all add: replace_comma_def)

subsection \<open>What the reconstruction depends on\<close>

lemma bindE_assoc: "bindE (bindE m f) g = bindE m (\<lambda>x. bindE (f x) g)"
  by (cases m) simp_all

lemma assign_dt_known:
  "get_col df ''datetime'' = Some dt \<Longrightarrow>
     assign_dt name field df = bindE (mapE field dt) (\<lambda>col. Inr (set_col df name col))"
  by (simp add: assign_dt_def)

lemma rel_sum_bindE:
  "(\<And>x. m = Inr x \<Longrightarrow> rel_sum (=) R (f x) (g x)) \<Longrightarrow> rel_sum (=) R (bindE m f) (bindE m g)"
  by (cases m) simp_all

lemma reconstruct_eq:
  assumes "get_col df0 ''datetime'' = Some dt" and "\<not> list_all isna dt"
    and "net_flows partner_configs (drop_net_cols df0) = Inr df"
  shows "reconstruct df0 =
          (if filter (\<lambda>p. is_net (fst p)) (columns df) = [] then Inl (RuntimeError NoNetColumns)
           else
             bindE (sum_axis1 (nrows df) (map snd (filter (\<lambda>p. is_net (fst p)) (columns df)))) (\<lambda>tot.
             bindE (mapE dt_date dt) (\<lambda>date.
             bindE (mapE dt_year dt) (\<lambda>year.
             bindE (mapE dt_month dt) (\<lambda>month.
             bindE (mapE dt_day dt) (\<lambda>day.
             bindE (mapE dt_hour dt) (\<lambda>hour.
             Inr (set_col (set_col (set_col (set_col (set_col (set_col df
                   ''net_total'' tot) ''date'' date) ''year'' year) ''month'' month)
                   ''day'' day) ''hour'' hour))))))))"
proof -
  have d: "get_col df ''datetime'' = Some dt"
    using net_flows_get_col [OF assms(3), of "''datetime''"] assms(1) by (simp add: get_col_drop_net)
  have a: "assign_dt name field (set_col x k v) = bindE (mapE field dt) (\<lambda>col. Inr (set_col (set_col x k v) name col))"
    if "get_col x ''datetime'' = Some dt" "k \<noteq> ''datetime''" for name field x k v
    using that by (intro assign_dt_known) (simp add: get_col_set_col)
  have g: "get_col (set_col x k v) ''datetime'' = Some dt"
    if "get_col x ''datetime'' = Some dt" "k \<noteq> ''datetime''" for x k v
    using that by (simp add: get_col_set_col)
  show ?thesis
    using assms(1,2,3) d
    by (simp add: reconstruct_def net_filter_eq Let_def a g bindE_assoc cong: if_cong)
qed

lemma get_col_net:
  "is_net c \<Longrightarrow> get_col df c = map_of (filter (\<lambda>p. is_net (fst p)) (columns df)) c"
  by (simp add: get_col_def map_of_filter [where P = is_net] restrict_map_def)

lemma reconstruct_rel:
  assumes "nrows d1 = nrows d2" and "get_col d1 ''datetime'' = get_col d2 ''datetime''"
    and "\<forall>(code, e, i)\<in>set partner_configs. get_col d1 e = get_col d2 e \<and> get_col d1 i = get_col d2 i"
  shows "rel_sum (=) (\<lambda>a b. \<forall>c. canonical_col c \<longrightarrow> get_col a c = get_col b c)
           (reconstruct d1) (reconstruct d2)"
proof (cases "get_col d1 ''datetime''")
  case None
  with assms(2) show ?thesis by (simp add: reconstruct_def)
next
  case (Some dt)
  with assms(2) have dt2: "get_col d2 ''datetime'' = Some dt" by simp
  show ?thesis
  proof (cases "list_all isna dt")
    case True
    with Some dt2 show ?thesis by (simp add: reconstruct_def)
  next
    case False
    have flows: "\<forall>(code, e, i)\<in>set partner_configs.
        get_col (drop_net_cols d1) e = get_col (drop_net_cols d2) e \<and>
        get_col (drop_net_cols d1) i = get_col (drop_net_cols d2) i"
      using assms(3) by (auto simp: get_col_drop_net)
    have "rel_sum (=)
           (\<lambda>a b. filter (\<lambda>p. is_net (fst p)) (columns a) = filter (\<lambda>p. is_net (fst p)) (columns b))
           (net_flows partner_configs (drop_net_cols d1)) (net_flows partner_configs (drop_net_cols d2))"
      by (rule net_flows_rel [OF _ flows]) simp
    then consider (Inl) e where "net_flows partner_configs (drop_net_cols d1) = Inl e"
        "net_flows partner_configs (drop_net_cols d2) = Inl e"
      | (Inr) a b where "net_flows partner_configs (drop_net_cols d1) = Inr a"
        "net_flows partner_configs (drop_net_cols d2) = Inr b"
        "filter (\<lambda>p. is_net (fst p)) (columns a) = filter (\<lambda>p. is_net (fst p)) (columns b)"
      by (cases "net_flows partner_configs (drop_net_cols d1)";
          cases "net_flows partner_configs (drop_net_cols d2)") auto
    then show ?thesis
    proof cases
      case (Inl e)
      with Some dt2 False show ?thesis by (simp add: reconstruct_def)
    next
      case (Inr a b)
      have n: "nrows a = nrows b"
        using net_flows_keeps [OF Inr(1)] net_flows_keeps [OF Inr(2)] assms(1) by simp
      have da: "get_col a ''datetime'' = Some dt"
        using net_flows_get_col [OF Inr(1), of "''datetime''"] Some by (simp add: get_col_drop_net)
      have db: "get_col b ''datetime'' = Some dt"
        using net_flows_get_col [OF Inr(2), of "''datetime''"] dt2 by (simp add: get_col_drop_net)
      have fin: "\<forall>c. canonical_col c \<longrightarrow>
          get_col (set_col (set_col (set_col (set_col (set_col (set_col a
                   ''net_total'' tot) ''date'' date) ''year'' year) ''month'' month)
                   ''day'' day) ''hour'' hour) c
        = get_col (set_col (set_col (set_col (set_col (set_col (set_col b
                   ''net_total'' tot) ''date'' date) ''year'' year) ''month'' month)
                   ''day'' day) ''hour'' hour) c" for tot date year month day hour
      proof (intro allI impI)
        fix c
        assume c: "canonical_col c"
        have "get_col a c = get_col b c"
          if "c \<noteq> ''hour''" "c \<noteq> ''day''" "c \<noteq> ''month''" "c \<noteq> ''year''" "c \<noteq> ''date''"
        proof (cases "is_net c")
          case True
          then show ?thesis using Inr(3) by (simp add: get_col_net)
        next
          case False
          with c that have "c = ''datetime''" by (simp add: canonical_col_def)
          with da db show ?thesis by simp
        qed
        then show "get_col (set_col (set_col (set_col (set_col (set_col (set_col a
                   ''net_total'' tot) ''date'' date) ''year'' year) ''month'' month)
                   ''day'' day) ''hour'' hour) c
        = get_col (set_col (set_col (set_col (set_col (set_col (set_col b
                   ''net_total'' tot) ''date'' date) ''year'' year) ''month'' month)
                   ''day'' day) ''hour'' hour) c"
          by (simp add: get_col_set_col)
      qed
      show ?thesis
        unfolding reconstruct_eq [OF Some False Inr(1)] reconstruct_eq [OF dt2 False Inr(2)] Inr(3) n
        by (auto intro!: rel_sum_bindE simp: fin)
    qed
  qed
qed

subsection \<open>Sums over buckets\<close>

lemma bucket_sum_mset:
  "mset (zip keys vs) = mset (zip keys' vs') \<Longrightarrow> bucket_sum keys vs k = bucket_sum keys' vs' k"
proof -
  assume a: "mset (zip keys vs) = mset (zip keys' vs')"
  have "bucket_sum ks xs k = sum_mset (image_mset snd (filter_mset (\<lambda>(k', v). k' = Some k) (mset (zip ks xs))))"
    for ks xs
    by (simp add: bucket_sum_def flip: sum_mset_sum_list)
  with a show ?thesis by simp
qed

lemma mset_take_perm:
  assumes "mset p = mset [0..<n]" and "length xs = n"
  shows "mset (map (\<lambda>i. xs ! i) p) = mset xs"
proof -
  have "map (\<lambda>i. xs ! i) [0..<n] = xs"
    using assms(2) map_nth [of xs] by simp
  then have "mset xs = image_mset (\<lambda>i. xs ! i) (mset [0..<n])"
    by (simp only: mset_map [symmetric])
  also have "\<dots> = mset (map (\<lambda>i. xs ! i) p)"
    by (simp only: mset_map assms(1))
  finally show ?thesis by simp
qed

lemma zip_take_perm:
  assumes "mset p = mset [0..<n]" and "length xs = n" and "length ys = n"
  shows "mset (zip (map (\<lambda>i. xs ! i) p) (map (\<lambda>i. ys ! i) p)) = mset (zip xs ys)"
proof -
  have in_range: "i < n" if "i \<in> set p" for i
    using that mset_eq_setD [OF assms(1)] by simp
  have "zip (map (\<lambda>i. xs ! i) p) (map (\<lambda>i. ys ! i) p) = map (\<lambda>i. zip xs ys ! i) p"
    using assms(2,3) in_range by (simp add: zip_map_map zip_same_conv_map)
  moreover have "mset (map (\<lambda>i. zip xs ys ! i) p) = mset (zip xs ys)"
    by (rule mset_take_perm [OF assms(1)]) (simp add: assms(2,3))
  ultimately show ?thesis by simp
qed

lemma buckets_mset:
  assumes "mset keys = mset keys'"
  shows "buckets keys = buckets keys'"
proof -
  have "mset (List.map_filter id keys) = mset (List.map_filter id keys')"
    using assms by (simp add: map_filter_def)
  then have "set (List.map_filter id keys) = set (List.map_filter id keys')"
    and "List.map_filter id keys = [] \<longleftrightarrow> List.map_filter id keys' = []"
    by (auto dest: mset_eq_setD simp flip: mset_zero_iff)
  then show ?thesis by (simp add: buckets_def Let_def)
qed

lemma buckets_cover:
  "distinct (buckets keys)" "Some k \<in> set keys \<Longrightarrow> k \<in> set (buckets keys)"
proof -
  show "distinct (buckets keys)"
    by (simp add: buckets_def Let_def)
  assume "Some k \<in> set keys"
  then have k: "k \<in> set (List.map_filter id keys)"
    by (force simp: map_filter_def)
  then have "Min (set (List.map_filter id keys)) \<le> k" "k \<le> Max (set (List.map_filter id keys))"
    by simp_all
  with k show "k \<in> set (buckets keys)"
    by (auto simp: buckets_def Let_def)
qed

lemma sum_list_indicator:
  "distinct ks \<Longrightarrow> (\<Sum>k'\<leftarrow>ks. if k = k' then v else (0::real)) = (if k \<in> set ks then v else 0)"
  by (induction ks) auto

lemma bucket_sums_total:
  assumes "distinct ks" and "\<And>k. Some k \<in> set keys \<Longrightarrow> k \<in> set ks"
  shows "(\<Sum>k\<leftarrow>ks. bucket_sum keys vs k) = sum_list (map snd (filter (\<lambda>(k', v). k' \<noteq> None) (zip keys vs)))"
proof -
  have "(\<Sum>k\<leftarrow>ks. sum_list (map snd (filter (\<lambda>(k', v). k' = Some k) kvs)))
        = sum_list (map snd (filter (\<lambda>(k', v). k' \<noteq> None) kvs))"
    if "\<And>k v. (Some k, v) \<in> set kvs \<Longrightarrow> k \<in> set ks" for kvs :: "(int option \<times> real) list"
    using that
  proof (induction kvs)
    case Nil
    show ?case by simp
  next
    case (Cons a kvs)
    obtain k' v where a: "a = (k', v)" by (cases a)
    have IH: "(\<Sum>k\<leftarrow>ks. sum_list (map snd (filter (\<lambda>(k', v). k' = Some k) kvs)))
        = sum_list (map snd (filter (\<lambda>(k', v). k' \<noteq> None) kvs))"
    proof (rule Cons.IH)
      fix k v
      assume "(Some k, v) \<in> set kvs"
      then have "(Some k, v) \<in> set (a # kvs)" by simp
      then show "k \<in> set ks" by (rule Cons.prems)
    qed
    show ?case
    proof (cases k')
      case None
      with a IH show ?thesis by simp
    next
      case (Some k0)
      with a have "(Some k0, v) \<in> set (a # kvs)" by simp
      then have mem: "k0 \<in> set ks" by (rule Cons.prems)
      have "(\<Sum>k\<leftarrow>ks. sum_list (map snd (filter (\<lambda>(k', v). k' = Some k) (a # kvs))))
          = (\<Sum>k\<leftarrow>ks. (if k0 = k then v else 0) + sum_list (map snd (filter (\<lambda>(k', v). k' = Some k) kvs)))"
        using a Some by (intro arg_cong [where f = sum_list] map_cong) auto
      also have "\<dots> = (\<Sum>k\<leftarrow>ks. if k0 = k then v else 0)
                   + (\<Sum>k\<leftarrow>ks. sum_list (map snd (filter (\<lambda>(k', v). k' = Some k) kvs)))"
        by (simp add: sum_list_addf)
      also have "\<dots> = v + sum_list (map snd (filter (\<lambda>(k', v). k' \<noteq> None) kvs))"
        using mem by (simp add: sum_list_indicator [OF assms(1)] IH)
      finally show ?thesis
        using a Some by simp
    qed
  qed
  moreover have "k \<in> set ks" if "(Some k, v) \<in> set (zip keys vs)" for k v
    using that assms(2) by (auto dest: set_zip_leftD)
  ultimately show ?thesis
    by (simp add: bucket_sum_def)
qed

subsection \<open>Aggregation of a table with numeric flow columns\<close>

lemma mapE_index_stamp:
  assumes "\<forall>c\<in>set idx. is_stamp c"
  shows "mapE index_stamp idx = Inr (map stamp_of idx)"
proof -
  have "index_stamp c = Inr (stamp_of c)" if "is_stamp c" for c
    using that by (cases c) (simp_all add: is_stamp_def stamp_of_def)
  with assms have "mapE index_stamp idx = mapE (\<lambda>c. Inr (stamp_of c)) idx"
    by (intro mapE_cong) simp
  then show ?thesis by (simp add: mapE_pure)
qed

lemma resample_sum_numeric:
  assumes "\<forall>x\<in>set col. is_numeric x"
  shows "resample_sum keys ks col
           = Inr (map (\<lambda>k. Num (bucket_sum keys (map flow_value col) k)) ks)"
proof -
  from assms have "mapE num_skipna col = Inr (map flow_value col)"
    by (simp add: mapE_num_skipna)
  then show ?thesis
    by (simp add: resample_sum_def bucket_sum_def)
qed

lemma flow_filter_eq: "(\<lambda>(c, col). is_flow_col c) = (\<lambda>p. is_flow_col (fst p))"
  by (simp add: fun_eq_iff)

lemma aggregate_numeric:
  assumes "get_col df ''datetime'' = Some idx" and "\<forall>c\<in>set idx. is_stamp c"
    and "\<forall>(c, col)\<in>set (columns df). is_flow_col c \<longrightarrow> (\<forall>x\<in>set col. is_numeric x)"
    and "filter (\<lambda>p. is_flow_col (fst p)) (columns df) \<noteq> []"
  shows "aggregate df freq =
           bucket_calendar
             \<lparr>nrows = length (buckets (bucket_keys freq idx)),
              columns = (''datetime'', map (\<lambda>k. Timestamp (bucket_label freq k)) (buckets (bucket_keys freq idx)))
                        # summed_cols (bucket_keys freq idx) (buckets (bucket_keys freq idx))
                            (filter (\<lambda>p. is_flow_col (fst p)) (columns df))\<rparr>"
proof -
  let ?keys = "bucket_keys freq idx" and ?sel = "filter (\<lambda>p. is_flow_col (fst p)) (columns df)"
  let ?ks = "buckets ?keys"
  have keys: "map (map_option (bucket_index freq) \<circ> stamp_of) idx = ?keys"
    by (simp add: bucket_keys_def comp_def)
  have "mapE (\<lambda>(c, col). bindE (resample_sum ?keys ?ks col) (\<lambda>s. Inr (c, s))) ?sel
        = mapE (\<lambda>p. Inr (case p of (c, col) \<Rightarrow>
                    (c, map (\<lambda>k. Num (bucket_sum ?keys (map flow_value col) k)) ?ks))) ?sel"
  proof (rule mapE_cong)
    fix p
    assume p: "p \<in> set ?sel"
    obtain c col where pc: "p = (c, col)" by (cases p)
    with p assms(3) have "\<forall>x\<in>set col. is_numeric x" by auto
    with pc show "(case p of (c, col) \<Rightarrow> bindE (resample_sum ?keys ?ks col) (\<lambda>s. Inr (c, s)))
        = Inr (case p of (c, col) \<Rightarrow>
                    (c, map (\<lambda>k. Num (bucket_sum ?keys (map flow_value col) k)) ?ks))"
      by (simp add: resample_sum_numeric)
  qed
  then have s: "mapE (\<lambda>(c, col). bindE (resample_sum ?keys ?ks col) (\<lambda>s. Inr (c, s))) ?sel
        = Inr (summed_cols ?keys ?ks ?sel)"
    by (simp add: mapE_pure summed_cols_def)
  show ?thesis
    using assms(1,4)
    by (simp add: aggregate_def mapE_index_stamp [OF assms(2)] keys flow_filter_eq Let_def s)
qed

lemma bucket_calendar_Inr:
  assumes "get_col agg ''datetime'' = Some (map (\<lambda>k. Timestamp (f k)) ks)"
  shows "\<exists>out. bucket_calendar agg = Inr out \<and>
           (\<forall>c. c \<noteq> ''date'' \<and> c \<noteq> ''month'' \<and> c \<noteq> ''year'' \<longrightarrow> get_col out c = get_col agg c)"
proof -
  let ?lab = "map (\<lambda>k. Timestamp (f k)) ks"
  have "\<forall>c\<in>set ?lab. is_stamp c"
    by (simp add: is_stamp_def)
  from dt_field_total(1,2,3) [OF this] obtain date year month where
    m: "mapE dt_date ?lab = Inr date" "mapE dt_year ?lab = Inr year" "mapE dt_month ?lab = Inr month"
    by blast
  have 1: "assign_dt ''date'' dt_date agg = Inr (set_col agg ''date'' date)"
    using assms m(1) by (simp add: assign_dt_known)
  have 2: "assign_dt ''month'' dt_month (set_col agg ''date'' date)
           = Inr (set_col (set_col agg ''date'' date) ''month'' month)"
    using assms m(3) by (simp add: assign_dt_known get_col_set_col)
  have 3: "assign_dt ''year'' dt_year (set_col (set_col agg ''date'' date) ''month'' month)
           = Inr (set_col (set_col (set_col agg ''date'' date) ''month'' month) ''year'' year)"
    using assms m(2) by (simp add: assign_dt_known get_col_set_col)
  have "bucket_calendar agg = Inr (set_col (set_col (set_col agg ''date'' date) ''month'' month) ''year'' year)"
    by (simp add: bucket_calendar_def 1 2 3)
  then show ?thesis
    by (simp add: get_col_set_col)
qed

lemma map_of_summed_cols:
  "map_of (summed_cols keys ks selected) c
     = map_option (\<lambda>col. map (\<lambda>k. Num (bucket_sum keys (map flow_value col) k)) ks) (map_of selected c)"
  by (induction selected) (auto simp: summed_cols_def)

lemma is_flow_col_total [simp]: "is_flow_col ''net_total''"
  by (simp add: is_flow_col_def aggregated_prefixes_def)

lemma not_flow_col_datetime [simp]: "\<not> is_flow_col ''datetime''"
  by (simp add: is_flow_col_def aggregated_prefixes_def)

lemma selected_rows:
  "map snd (filter (\<lambda>(k, v). P k) (zip (map g idx) (map h nt)))
     = map h (map snd (filter (\<lambda>(t, v). P (g t)) (zip idx nt)))"
proof (induction idx arbitrary: nt)
  case Nil
  show ?case by simp
next
  case (Cons t idx)
  show ?case
    by (cases nt) (simp_all add: Cons.IH)
qed

subsection \<open>Rows in another order\<close>

lemma get_col_take_rows:
  "get_col (take_rows p df) c = map_option (\<lambda>col. map (\<lambda>i. col ! i) p) (get_col df c)"
  by (simp add: get_col_def take_rows_def map_of_map)

lemma flow_cols_take_rows:
  "filter (\<lambda>p. is_flow_col (fst p)) (columns (take_rows p df))
     = map (\<lambda>(c, col). (c, map (\<lambda>i. col ! i) p)) (filter (\<lambda>p. is_flow_col (fst p)) (columns df))"
  by (simp add: take_rows_def filter_map comp_def split_def)

lemma aggregate_take_rows:
  assumes "wf_frame df" and "get_col df ''datetime'' = Some idx" and "\<forall>c\<in>set idx. is_stamp c"
    and "\<forall>(c, col)\<in>set (columns df). is_flow_col c \<longrightarrow> (\<forall>x\<in>set col. is_numeric x)"
    and "filter (\<lambda>p. is_flow_col (fst p)) (columns df) \<noteq> []"
    and "mset p = mset [0..<nrows df]"
  shows "aggregate (take_rows p df) freq = aggregate df freq"
proof -
  let ?n = "nrows df"
  let ?idx' = "map (\<lambda>i. idx ! i) p"
  let ?keys = "bucket_keys freq idx" and ?keys' = "bucket_keys freq ?idx'"
  let ?sel = "filter (\<lambda>p. is_flow_col (fst p)) (columns df)"
  let ?sel' = "filter (\<lambda>q. is_flow_col (fst q)) (columns (take_rows p df))"
  have in_range: "\<forall>i\<in>set p. i < ?n"
    using mset_eq_setD [OF assms(6)] by simp
  have li: "length idx = ?n"
    using wf_get_col [OF assms(1,2)] .
  have lc: "length col = ?n" if "(c, col) \<in> set (columns df)" for c col
    using that assms(1) by (auto simp: wf_frame_def list_all_iff)
  have idx': "get_col (take_rows p df) ''datetime'' = Some ?idx'"
    by (simp add: get_col_take_rows assms(2))
  have stamps': "\<forall>c\<in>set ?idx'. is_stamp c"
    using assms(3) in_range li by auto
  have numeric': "\<forall>(c, col)\<in>set (columns (take_rows p df)). is_flow_col c \<longrightarrow> (\<forall>x\<in>set col. is_numeric x)"
  proof -
    have "is_numeric (col ! i)" if "(c, col) \<in> set (columns df)" "is_flow_col c" "i \<in> set p" for c col i
    proof -
      from that(3) in_range lc [OF that(1)] have "col ! i \<in> set col" by simp
      with assms(4) that(1,2) show ?thesis by blast
    qed
    then show ?thesis
      by (auto simp: take_rows_def)
  qed
  have sel': "?sel' = map (\<lambda>(c, col). (c, map (\<lambda>i. col ! i) p)) ?sel"
    by (rule flow_cols_take_rows)
  with assms(5) have ne': "?sel' \<noteq> []" by simp
  have keys': "?keys' = map (\<lambda>i. ?keys ! i) p"
    using in_range li by (simp add: bucket_keys_def)
  have lk: "length ?keys = ?n"
    using li by (simp add: bucket_keys_def)
  have "mset ?keys' = mset ?keys"
    unfolding keys' by (rule mset_take_perm [OF assms(6) lk])
  then have ks: "buckets ?keys' = buckets ?keys"
    by (rule buckets_mset)
  have cols: "summed_cols ?keys' (buckets ?keys) ?sel' = summed_cols ?keys (buckets ?keys) ?sel"
  proof -
    have "bucket_sum ?keys' (map flow_value (map (\<lambda>i. col ! i) p)) k
          = bucket_sum ?keys (map flow_value col) k" if "(c, col) \<in> set ?sel" for c col k
    proof -
      from that have "length col = ?n" using lc by auto
      then have v: "map flow_value (map (\<lambda>i. col ! i) p) = map (\<lambda>i. map flow_value col ! i) p"
        using in_range by simp
      have "mset (zip (map (\<lambda>i. ?keys ! i) p) (map (\<lambda>i. map flow_value col ! i) p))
            = mset (zip ?keys (map flow_value col))"
        by (rule zip_take_perm [OF assms(6) lk]) (simp add: \<open>length col = ?n\<close>)
      then show ?thesis
        unfolding v keys' by (rule bucket_sum_mset)
    qed
    then show ?thesis
      unfolding sel' summed_cols_def by (auto simp: split_def)
  qed
  show ?thesis
    unfolding aggregate_numeric [OF idx' stamps' numeric' ne']
      aggregate_numeric [OF assms(2,3,4,5)] ks cols ..
qed

subsection \<open>The example tables, evaluated\<close>

lemma wf_raw_gbr: "wf_frame raw_gbr"
  by code_simp

lemma resolve_raw_gbr: "resolve_datetime lib0 raw_gbr = Inr res_gbr"
  by code_simp

lemma reconstruct_res_gbr: "reconstruct res_gbr = Inr out_gbr"
  by code_simp

lemma load_raw_gbr: "load_data lib0 raw_gbr = Inr out_gbr"
  by (simp add: load_data_def resolve_raw_gbr reconstruct_res_gbr)

lemma resolve_raw_lone: "resolve_datetime lib0 raw_lone = Inr res_lone"
  by code_simp

lemma resolve_raw_unread: "resolve_datetime lib0 raw_unread = Inr res_unread"
  by code_simp

lemma wf_raw_slots: "wf_frame raw_slots"
  by code_simp

lemma load_raw_slot_text: "load_data lib0 raw_slot_text = Inl ValueError"
  by code_simp

lemma resolve_raw_comb: "resolve_datetime lib0 raw_comb = Inr res_comb"
  by code_simp

lemma resolve_raw_slot: "resolve_datetime lib0 raw_slot = Inr res_slot"
  by code_simp

lemma reconstruct_res_comb: "reconstruct res_comb = Inr out_comb"
  by code_simp

lemma reconstruct_res_slot: "reconstruct res_slot = Inr out_slot"
  by code_simp

lemma load_raw_comb: "load_data lib0 raw_comb = Inr out_comb"
  by (simp add: load_data_def resolve_raw_comb reconstruct_res_comb)

lemma load_raw_slot: "load_data lib0 raw_slot = Inr out_slot"
  by (simp add: load_data_def resolve_raw_slot reconstruct_res_slot)

lemma same_instants_comb_slot: "get_col res_comb ''datetime'' = get_col res_slot ''datetime''"
  by (simp add: get_col_def res_comb_def res_slot_def tranche_def)

lemma same_flows_comb_slot:
  "list_all (\<lambda>(code, e, i). get_col raw_comb e = get_col raw_slot e \<and> get_col raw_comb i = get_col raw_slot i)
     partner_configs"
  by (simp add: partner_configs_def get_col_def raw_comb_def raw_slot_def tranche_def)

lemma wf_out_gbr: "wf_frame out_gbr"
  by code_simp

lemma flows_out_gbr:
  "list_all (\<lambda>(c, col). is_flow_col c \<longrightarrow> list_all is_numeric col) (columns out_gbr)"
  by code_simp

text \<open>The row of the example without a timestamp is in no bucket: the buckets hold 60, all rows 57.\<close>

lemma aggregate_out_gbr_daily:
  "map_sum id (\<lambda>agg. get_col agg ''net_total'') (aggregate out_gbr Daily) = Inr (Some [Num 60])"
  "series_sum [Num 60, Num (- 3)] = Inr 57"
  by code_simp+

section \<open>The claims\<close>





text \<open>
  C3. Loading a raw table that already has columns whose names begin with \<^verbatim>\<open>net_\<close> gives
  the same result (the same table or the same error) as loading the table with those
  columns removed first.
\<close>

theorem load_ignores_raw_net_columns:
  "load_data L (strip_net raw) = load_data L raw"
proof (cases "resolve_datetime L raw")
  case (Inl e)
  then show ?thesis
    by (simp add: load_data_def strip_net_eq resolve_datetime_drop_net)
next
  case (Inr d)
  then show ?thesis
    by (simp add: load_data_def strip_net_eq resolve_datetime_drop_net reconstruct_drop_net)
qed

text \<open>
  C8. When no configured partner has both its export and its import column in the raw
  table, the load never returns a table. It fails after the partners have been processed,
  with the error that no net column could be constructed, whenever timestamp resolution
  has gone through (otherwise the error of that earlier stage is raised).
\<close>

theorem no_partner_columns_no_table:
  assumes "\<forall>(code, e, i)\<in>set partner_configs. get_col raw e = None \<or> get_col raw i = None"
  shows "(\<forall>out. load_data L raw \<noteq> Inr out) \<and>
         (\<forall>e. resolve_datetime L raw = Inl e \<longrightarrow> load_data L raw = Inl e) \<and>
         (\<forall>df0. resolve_datetime L raw = Inr df0 \<longrightarrow>
            (\<exists>dt. get_col df0 ''datetime'' = Some dt \<and>
               load_data L raw =
                 (if list_all isna dt then Inl (RuntimeError AllDatetimeNaT)
                  else Inl (RuntimeError NoNetColumns))))"
proof -
  have p: "produced partner_configs raw = {}"
    using assms by (simp add: produced_empty_iff)
  have 3: "\<exists>dt. get_col df0 ''datetime'' = Some dt \<and>
               load_data L raw =
                 (if list_all isna dt then Inl (RuntimeError AllDatetimeNaT)
                  else Inl (RuntimeError NoNetColumns))"
    if res: "resolve_datetime L raw = Inr df0" for df0
  proof -
    from resolve_datetime_stamps [OF res] obtain dt where dt: "get_col df0 ''datetime'' = Some dt"
      by blast
    have p0: "produced partner_configs df0 = {}"
      using produced_resolved [OF res] p by simp
    show ?thesis
    proof (cases "list_all isna dt")
      case True
      with dt res show ?thesis
        by (simp add: load_data_def reconstruct_def)
    next
      case False
      from reconstruct_no_partner [OF p0 dt False] dt res False show ?thesis
        by (simp add: load_data_def)
    qed
  qed
  have 1: "load_data L raw \<noteq> Inr out" for out
  proof (cases "resolve_datetime L raw")
    case (Inl e)
    then show ?thesis by (simp add: load_data_def)
  next
    case (Inr df0)
    from 3 [OF Inr] show ?thesis by (auto split: if_splits)
  qed
  have 2: "load_data L raw = Inl e" if "resolve_datetime L raw = Inl e" for e
    using that by (simp add: load_data_def)
  from 1 2 3 show ?thesis by blast
qed

theorem no_partner_columns_no_table_witness:
  "list_all (\<lambda>(code, e, i). get_col raw_lone e = None \<or> get_col raw_lone i = None) partner_configs \<and>
   resolve_datetime lib0 raw_lone = Inr res_lone \<and>
   load_data lib0 raw_lone = Inl (RuntimeError NoNetColumns)"
proof -
  have l: "list_all (\<lambda>(code, e, i). get_col raw_lone e = None \<or> get_col raw_lone i = None) partner_configs"
    by (simp add: partner_configs_def get_col_def raw_lone_def)
  then have h: "\<forall>(code, e, i)\<in>set partner_configs. get_col raw_lone e = None \<or> get_col raw_lone i = None"
    by (simp only: list_all_iff)
  have g: "get_col res_lone ''datetime'' = Some [Timestamp 0]"
    by (simp add: get_col_def res_lone_def)
  from no_partner_columns_no_table [OF h, of lib0] resolve_raw_lone
  obtain dt where "get_col res_lone ''datetime'' = Some dt" and
    "load_data lib0 raw_lone =
       (if list_all isna dt then Inl (RuntimeError AllDatetimeNaT) else Inl (RuntimeError NoNetColumns))"
    by blast
  with g have "load_data lib0 raw_lone = Inl (RuntimeError NoNetColumns)"
    by simp
  with l resolve_raw_lone show ?thesis by (intro conjI)
qed

text \<open>
  C7. When a timestamp schema is present and resolution has left every row without a
  timestamp, the load fails with the error that all timestamps are missing, whatever the
  number of rows.
\<close>

theorem all_timestamps_missing_fails:
  assumes "resolve_datetime L raw = Inr df0" and "get_col df0 ''datetime'' = Some dt"
    and "\<forall>c\<in>set dt. c = NaT"
  shows "load_data L raw = Inl (RuntimeError AllDatetimeNaT)"
  using assms all_NaT_isna [OF assms(3)] by (simp add: load_data_def reconstruct_def)

theorem all_timestamps_missing_fails_witness:
  "resolve_datetime lib0 raw_unread = Inr res_unread \<and>
   get_col res_unread ''datetime'' = Some [NaT, NaT] \<and> set [NaT, NaT] = {NaT} \<and>
   load_data lib0 raw_unread = Inl (RuntimeError AllDatetimeNaT)"
proof -
  have g: "get_col res_unread ''datetime'' = Some [NaT, NaT]"
    by (simp add: get_col_def res_unread_def)
  have s: "set [NaT, NaT] = {NaT}"
    by simp
  then have a: "\<forall>c\<in>set [NaT, NaT]. c = NaT"
    by simp
  from all_timestamps_missing_fails [OF resolve_raw_unread g a] resolve_raw_unread g s
  show ?thesis by (intro conjI)
qed

text \<open>
  C10. A successful load returns a table with exactly the rows of the raw table: every
  column has one cell per raw row. A row whose timestamp could not be read stays in the
  table, with NaT as its timestamp and date, NaN as its year, day and hour, the label
  \<^verbatim>\<open>NaT\<close> as its month, and its cells in the other raw columns unchanged.
\<close>

theorem load_keeps_every_row:
  assumes "wf_frame raw" and "load_data L raw = Inr out"
  shows "nrows out = nrows raw \<and> wf_frame out \<and>
         (\<exists>dt date year month day hour.
            get_col out ''datetime'' = Some dt \<and> get_col out ''date'' = Some date \<and>
            get_col out ''year'' = Some year \<and> get_col out ''month'' = Some month \<and>
            get_col out ''day'' = Some day \<and> get_col out ''hour'' = Some hour \<and>
            (\<forall>r<nrows raw. dt ! r = NaT \<longrightarrow>
               date ! r = NaT \<and> year ! r = NaN \<and> month ! r = Str ''NaT'' \<and>
               day ! r = NaN \<and> hour ! r = NaN) \<and>
            (\<forall>c. get_col raw ''datetime'' = Some c \<longrightarrow>
               (\<forall>r<nrows raw. parse_datetime L c (c ! r) = None \<longrightarrow> dt ! r = NaT)) \<and>
            (\<forall>d. get_col raw ''datetime'' = None \<and> get_col raw ''Date'' = Some d \<longrightarrow>
               (\<forall>r<nrows raw. parse_datetime L d (d ! r) = None \<longrightarrow> dt ! r = NaT))) \<and>
         (\<forall>c. \<not> is_net c \<and> c \<notin> {''datetime'', ''Date'', ''hour'', ''date'', ''year'', ''month'', ''day''}
               \<longrightarrow> get_col out c = get_col raw c)"
proof -
  from assms(2) obtain df0 where res: "resolve_datetime L raw = Inr df0"
    and rec: "reconstruct df0 = Inr out"
    by (auto simp: load_data_def bindE_eq_Inr)
  have wf0: "wf_frame df0"
    using resolve_datetime_wf [OF res assms(1)] .
  have n0: "nrows df0 = nrows raw"
    using resolve_datetime_keeps(1) [OF res] .
  from rec obtain dt df tot date year month day hour where
    dt: "get_col df0 ''datetime'' = Some dt" and
    nf: "net_flows partner_configs (drop_net_cols df0) = Inr df" and
    m: "mapE dt_date dt = Inr date" "mapE dt_year dt = Inr year" "mapE dt_month dt = Inr month"
       "mapE dt_day dt = Inr day" "mapE dt_hour dt = Inr hour" and
    out: "out = set_col (set_col (set_col (set_col (set_col (set_col df
                 ''net_total'' tot) ''date'' date) ''year'' year) ''month'' month)
                 ''day'' day) ''hour'' hour"
    by (rule reconstruct_Inr)
  have len: "length dt = nrows raw"
    using wf_get_col [OF wf0 dt] n0 by simp
  have d3: "get_col df ''datetime'' = Some dt"
    using net_flows_get_col [OF nf, of "''datetime''"] dt by (simp add: get_col_drop_net)
  have g: "get_col out ''datetime'' = Some dt" "get_col out ''date'' = Some date"
    "get_col out ''year'' = Some year" "get_col out ''month'' = Some month"
    "get_col out ''day'' = Some day" "get_col out ''hour'' = Some hour"
    unfolding out using d3 by (simp_all add: get_col_set_col)
  have miss: "date ! r = NaT \<and> year ! r = NaN \<and> month ! r = Str ''NaT'' \<and> day ! r = NaN \<and> hour ! r = NaN"
    if "r < nrows raw" "dt ! r = NaT" for r
  proof -
    from that(1) len have r: "r < length dt" by simp
    from m [THEN mapE_nth, OF r] that(2) show ?thesis
      by (simp add: dt_fields_NaT)
  qed
  have comb: "dt ! r = NaT"
    if "get_col raw ''datetime'' = Some c" "r < nrows raw" "parse_datetime L c (c ! r) = None" for c r
  proof -
    have "length c = nrows raw" using wf_get_col [OF assms(1) that(1)] .
    with that(2) len have "r < length dt" "r < length c" by simp_all
    from resolve_datetime_unread(1) [OF res dt this(1) that(1) this(2) that(3)] show ?thesis .
  qed
  have slot: "dt ! r = NaT"
    if "get_col raw ''datetime'' = None" "get_col raw ''Date'' = Some d" "r < nrows raw"
      "parse_datetime L d (d ! r) = None" for d r
  proof -
    have "length d = nrows raw" using wf_get_col [OF assms(1) that(2)] .
    with that(3) len have "r < length dt" "r < length d" by simp_all
    from resolve_datetime_unread(2) [OF res dt this(1) that(1,2) this(2) that(4)] show ?thesis .
  qed
  have keep: "get_col out c = get_col raw c"
    if "\<not> is_net c" "c \<notin> {''datetime'', ''Date'', ''hour'', ''date'', ''year'', ''month'', ''day''}" for c
  proof -
    have "c \<noteq> ''net_total''" using that(1) is_net_total by blast
    with that(2) have "get_col out c = get_col df c"
      unfolding out by (simp add: get_col_set_col)
    also have "\<dots> = get_col df0 c"
      using net_flows_get_col [OF nf that(1)] that(1) by (simp add: get_col_drop_net)
    also have "\<dots> = get_col raw c"
      using that(2) by (simp add: resolve_datetime_keeps(2) [OF res])
    finally show ?thesis .
  qed
  have "nrows out = nrows raw"
    using reconstruct_keeps(1) [OF rec] n0 by simp
  moreover have "wf_frame out"
    using reconstruct_keeps(2) [OF rec wf0] .
  moreover have "\<forall>r<nrows raw. dt ! r = NaT \<longrightarrow>
               date ! r = NaT \<and> year ! r = NaN \<and> month ! r = Str ''NaT'' \<and>
               day ! r = NaN \<and> hour ! r = NaN"
    using miss by blast
  moreover have "\<forall>c. get_col raw ''datetime'' = Some c \<longrightarrow>
               (\<forall>r<nrows raw. parse_datetime L c (c ! r) = None \<longrightarrow> dt ! r = NaT)"
    using comb by blast
  moreover have "\<forall>d. get_col raw ''datetime'' = None \<and> get_col raw ''Date'' = Some d \<longrightarrow>
               (\<forall>r<nrows raw. parse_datetime L d (d ! r) = None \<longrightarrow> dt ! r = NaT)"
    using slot by blast
  moreover have "\<forall>c. \<not> is_net c \<and> c \<notin> {''datetime'', ''Date'', ''hour'', ''date'', ''year'', ''month'', ''day''}
               \<longrightarrow> get_col out c = get_col raw c"
  proof (intro allI impI)
    fix c
    assume "\<not> is_net c \<and> c \<notin> {''datetime'', ''Date'', ''hour'', ''date'', ''year'', ''month'', ''day''}"
    then show "get_col out c = get_col raw c"
      by (intro keep) (erule conjunct1, erule conjunct2)
  qed
  ultimately show ?thesis
    using g by (intro conjI exI) assumption+
qed

theorem load_keeps_every_row_witness:
  "wf_frame raw_gbr \<and> load_data lib0 raw_gbr = Inr out_gbr \<and>
   nrows out_gbr = nrows raw_gbr \<and> wf_frame out_gbr \<and>
   (\<exists>dt date year month day hour.
      get_col out_gbr ''datetime'' = Some dt \<and> get_col out_gbr ''date'' = Some date \<and>
      get_col out_gbr ''year'' = Some year \<and> get_col out_gbr ''month'' = Some month \<and>
      get_col out_gbr ''day'' = Some day \<and> get_col out_gbr ''hour'' = Some hour \<and>
      (\<forall>r<nrows raw_gbr. dt ! r = NaT \<longrightarrow>
         date ! r = NaT \<and> year ! r = NaN \<and> month ! r = Str ''NaT'' \<and>
         day ! r = NaN \<and> hour ! r = NaN) \<and>
      (\<forall>c. get_col raw_gbr ''datetime'' = Some c \<longrightarrow>
         (\<forall>r<nrows raw_gbr. parse_datetime lib0 c (c ! r) = None \<longrightarrow> dt ! r = NaT)) \<and>
      (\<forall>d. get_col raw_gbr ''datetime'' = None \<and> get_col raw_gbr ''Date'' = Some d \<longrightarrow>
         (\<forall>r<nrows raw_gbr. parse_datetime lib0 d (d ! r) = None \<longrightarrow> dt ! r = NaT))) \<and>
   get_col out_gbr ''FR vers GB (MWh)'' = get_col raw_gbr ''FR vers GB (MWh)''"
proof -
  note t = load_keeps_every_row [OF wf_raw_gbr load_raw_gbr]
  have n: "\<not> is_net ''FR vers GB (MWh)''"
    by (simp add: is_net_def)
  have m: "''FR vers GB (MWh)'' \<notin> {''datetime'', ''Date'', ''hour'', ''date'', ''year'', ''month'', ''day''}"
    by simp
  note k = t [THEN conjunct2, THEN conjunct2, THEN conjunct2, THEN spec, THEN mp, OF conjI [OF n m]]
  show ?thesis
    by (intro conjI wf_raw_gbr load_raw_gbr t [THEN conjunct1] t [THEN conjunct2, THEN conjunct1]
          t [THEN conjunct2, THEN conjunct2, THEN conjunct1] k)
qed




text \<open>
  C9. The formatting helper chooses the scale by the magnitude of its input: below 1000
  the value itself with no decimal and the unit MWh; from 1000 and below 1000000 the value
  divided by 1000 with one decimal and the unit GWh; from 1000000 the value divided by
  1000000 with one decimal and the unit TWh; so 999 is in MWh, 1000 and 999999 are in GWh
  and 1000000 is in TWh. A missing input gives the placeholder.
\<close>

theorem format_mwh_scale_thresholds:
  "(\<forall>x. \<bar>x\<bar> < 10 ^ 3 \<longrightarrow>
        format_mwh L (Num x) = Inr (replace_comma (format_fixed L 0 x) @ '' MWh'')) \<and>
   (\<forall>x. 10 ^ 3 \<le> \<bar>x\<bar> \<and> \<bar>x\<bar> < 10 ^ 6 \<longrightarrow>
        format_mwh L (Num x) = Inr (replace_comma (format_fixed L 1 (x / 10 ^ 3)) @ '' GWh'')) \<and>
   (\<forall>x. 10 ^ 6 \<le> \<bar>x\<bar> \<longrightarrow>
        format_mwh L (Num x) = Inr (replace_comma (format_fixed L 1 (x / 10 ^ 6)) @ '' TWh'')) \<and>
   format_mwh L (Num 999) = Inr (replace_comma (format_fixed L 0 999) @ '' MWh'') \<and>
   format_mwh L (Num 1000) = Inr (replace_comma (format_fixed L 1 1) @ '' GWh'') \<and>
   format_mwh L (Num 999999) = Inr (replace_comma (format_fixed L 1 (999999 / 1000)) @ '' GWh'') \<and>
   format_mwh L (Num 1000000) = Inr (replace_comma (format_fixed L 1 1) @ '' TWh'') \<and>
   format_mwh L NaN = Inr placeholder \<and> format_mwh L NaT = Inr placeholder"
  by (simp add: replace_comma_unit)

theorem format_mwh_scale_thresholds_witness:
  "format_mwh lib0 (Num 999) = Inr '' MWh'' \<and>
   format_mwh lib0 (Num (- 1000)) = Inr '' GWh'' \<and>
   format_mwh lib0 (Num 999999) = Inr '' GWh'' \<and>
   format_mwh lib0 (Num 1000000) = Inr '' TWh'' \<and>
   format_mwh lib0 NaN = Inr placeholder"
proof -
  note t = format_mwh_scale_thresholds [of lib0]
  have f: "replace_comma (format_fixed lib0 d x) = []" for d x
    by (simp add: lib0_def replace_comma_def)
  have a: "\<bar>999::real\<bar> < 10 ^ 3" by simp
  have b: "10 ^ 3 \<le> \<bar>- 1000::real\<bar> \<and> \<bar>- 1000::real\<bar> < 10 ^ 6" by simp
  have c: "10 ^ 3 \<le> \<bar>999999::real\<bar> \<and> \<bar>999999::real\<bar> < 10 ^ 6" by simp
  have d: "10 ^ 6 \<le> \<bar>1000000::real\<bar>" by simp
  note 1 = t [THEN conjunct1, THEN spec, THEN mp, OF a]
  note 2 = t [THEN conjunct2, THEN conjunct1, THEN spec, THEN mp, OF b]
  note 3 = t [THEN conjunct2, THEN conjunct1, THEN spec, THEN mp, OF c]
  note 4 = t [THEN conjunct2, THEN conjunct2, THEN conjunct1, THEN spec, THEN mp, OF d]
  have 5: "format_mwh lib0 NaN = Inr placeholder"
    using t by (elim conjE)
  show ?thesis
    using 1 2 3 4 5 by (simp only: f append_Nil)
qed






end
